theory Spec2Isabelle
  imports Main "HOL-Library.Sublist" "HOL-Library.Multiset" "HOL-Library.Word"
begin

section \<open>The process supervisor of ollama-manager.js\<close>

text \<open>
  The supervisor is the JavaScript class \<open>OllamaManager\<close>. Its methods are asynchronous:
  each one runs on the single-threaded event loop up to its next \<open>await\<close> or callback
  registration, and is continued later, when the awaited request, timer or child-process
  event completes. The embedding follows that structure. Every callback and every code
  section between two suspension points of the source is one state transformer; the
  operations still in flight are kept in the multiset \<open>pending\<close>; the environment decides
  which of them completes next and with what result, by an \<open>event\<close>. Console output is
  not modelled.
\<close>

subsection \<open>Values of the runtime\<close>

text \<open>A promise is pending or settled; a rejection carries the message of its \<open>Error\<close>.\<close>

datatype 'a promise = Pending | Fulfilled 'a | Rejected string

text \<open>\<open>startOllama\<close> returns \<open>true\<close>, or nothing at all (the bare \<open>return\<close> of line 81).\<close>

datatype retval = RTrue | RUndefined

text \<open>What a GET request can end with: a response with its status, a network error, a timeout.\<close>

datatype http_outcome = Response nat | NetworkError | TimedOut

text \<open>
  The host: the string \<open>platform()\<close> returns, and whether the global \<open>fetch\<close> is defined
  (\<open>typeof fetch !== 'undefined'\<close>).
\<close>

record runtime =
  platform :: string
  hasFetch :: bool

text \<open>Decimal rendering of a number inside a template literal.\<close>

function show_nat :: "nat \<Rightarrow> string" where
  "show_nat n =
     (if n < 10 then [''0123456789'' ! n]
      else show_nat (n div 10) @ [''0123456789'' ! (n mod 10)])"
  by pat_completeness auto
termination
  by (relation "measure id") auto

declare show_nat.simps [simp del]

subsection \<open>isOllamaRunning (lines 16-44)\<close>

definition health_url :: "nat \<Rightarrow> string" where
  "health_url port = ''http://localhost:'' @ show_nat port @ ''/api/tags''"

text \<open>
  The network is a function from the requested URL to the outcome of the request. With
  \<open>fetch\<close> the promise resolves to \<open>response.ok\<close>, which the Fetch standard defines as a
  status from 200 to 299, and the \<open>catch\<close> resolves it to false; without \<open>fetch\<close> the
  \<open>http.get\<close> callback resolves it to \<open>res.statusCode === 200\<close>, and the \<open>error\<close> and
  \<open>timeout\<close> listeners resolve it to false. A URL carries a port up to 65535. With a
  greater one the URL does not parse and no request is made: \<open>fetch\<close> rejects, which the
  \<open>catch\<close> resolves to false, and \<open>http.get\<close> throws a \<open>TypeError\<close> inside the executor of
  the promise, which rejects the promise. The callers in the repository pass no port and
  get \<open>defaultPort\<close>.
\<close>

definition isOllamaRunning :: "runtime \<Rightarrow> (string \<Rightarrow> http_outcome) \<Rightarrow> nat \<Rightarrow> bool promise" where
  "isOllamaRunning rt net port =
     (let testUrl = health_url port in
      if hasFetch rt then
        (if 65535 < port then Fulfilled False
         else case net testUrl of
           Response st \<Rightarrow> Fulfilled (200 \<le> st \<and> st \<le> 299)
         | NetworkError \<Rightarrow> Fulfilled False
         | TimedOut \<Rightarrow> Fulfilled False)
      else
        (if 65535 < port then Rejected ''Invalid URL''
         else case net testUrl of
           Response st \<Rightarrow> Fulfilled (st = 200)
         | NetworkError \<Rightarrow> Fulfilled False
         | TimedOut \<Rightarrow> Fulfilled False))"

subsection \<open>getOllamaPath (lines 47-75)\<close>

definition bslash :: char where
  "bslash = CHR 0x5C"

definition getOllamaPath :: "string \<Rightarrow> string list" where
  "getOllamaPath os =
     (if os = ''win32'' then
        [''ollama.exe'',
         ''C:'' @ [bslash] @ ''Users'' @ [bslash] @ ''%USERNAME%'' @ [bslash] @ ''AppData''
           @ [bslash] @ ''Local'' @ [bslash] @ ''Programs'' @ [bslash] @ ''Ollama''
           @ [bslash] @ ''ollama.exe'',
         ''C:'' @ [bslash] @ ''Program Files'' @ [bslash] @ ''Ollama'' @ [bslash] @ ''ollama.exe'',
         ''C:'' @ [bslash] @ ''Program Files (x86)'' @ [bslash] @ ''Ollama''
           @ [bslash] @ ''ollama.exe'']
      else if os = ''darwin'' then
        [''/usr/local/bin/ollama'',
         ''/opt/homebrew/bin/ollama'',
         ''~/Applications/Ollama.app/Contents/Resources/ollama'']
      else
        [''/usr/local/bin/ollama'',
         ''/usr/bin/ollama'',
         ''~/.local/bin/ollama'',
         ''./ollama''])"

subsection \<open>The state of the supervisor and of the event loop\<close>

text \<open>
  A child process is known by its handle, the index of its entry in \<open>children\<close>. The entry
  keeps the path it was spawned from, the \<open>startOllama\<close> call whose closure its listeners
  belong to, and whether it has emitted \<open>exit\<close>.
\<close>

record child =
  cpath :: string
  cowner :: nat
  cexited :: bool

text \<open>
  One call of \<open>startOllama\<close>: the variables \<open>paths\<close> and \<open>pathIndex\<close> of its closure, the
  promise it returned, and the \<open>ensureOllamaRunning\<close> call awaiting it, if any.
\<close>

record startcall =
  paths :: "string list"
  pathIndex :: nat
  outcome :: "retval promise"
  awaiter :: "nat option"

text \<open>One call of \<open>ensureOllamaRunning\<close>: its local \<open>retries\<close> and the promise it returned.\<close>

record ensurecall =
  retries :: nat
  eoutcome :: "bool promise"

text \<open>The code that continues when a health check resolves.\<close>

datatype cont =
    StartPre nat    \<comment> \<open>line 84, in \<open>startOllama\<close> call \<open>c\<close>\<close>
  | StartPost nat   \<comment> \<open>line 143, in the timer callback of call \<open>c\<close>\<close>
  | EnsurePre nat   \<comment> \<open>line 168, in \<open>ensureOllamaRunning\<close> call \<open>e\<close>\<close>
  | EnsurePost nat  \<comment> \<open>line 178\<close>

text \<open>The operations in flight.\<close>

datatype task =
    Health cont        \<comment> \<open>an \<open>isOllamaRunning()\<close> request\<close>
  | Probe nat string   \<comment> \<open>\<open>exec\<close> of \<open>"path" --version\<close>, line 107\<close>
  | Settle nat         \<comment> \<open>the 3000 ms timer of line 141\<close>
  | Delay nat bool     \<comment> \<open>the \<open>retryDelay\<close> timer of line 176 (True) or line 189 (False)\<close>

text \<open>
  The first five fields are the fields of the class (lines 8-12). The others are the
  processes spawned so far, the handles a termination signal was sent to, the calls made
  so far and the operations in flight. The constructor sets \<open>defaultPort\<close> to 11434 and
  nothing in the repository assigns it again: it is kept as a port number, 16 bits wide,
  so that the health checks the supervisor makes on it are requests that can be made.
\<close>

record state =
  ollamaProcess :: "nat option"
  isStarting :: bool
  defaultPort :: "16 word"
  maxRetries :: nat
  retryDelay :: nat
  children :: "child list"
  killed :: "nat list"
  calls :: "startcall list"
  ensures :: "ensurecall list"
  pending :: "task multiset"

definition new_manager :: state where
  "new_manager =
     \<lparr>ollamaProcess = None, isStarting = False, defaultPort = 11434, maxRetries = 3,
      retryDelay = 2000, children = [], killed = [], calls = [], ensures = [], pending = {#}\<rparr>"

subsection \<open>ensureOllamaRunning (lines 163-195), from its last section to its first\<close>

definition failure_message :: "nat \<Rightarrow> string" where
  "failure_message n = ''Failed to start Ollama after '' @ show_nat n @ '' attempts''"

text \<open>The loop test of line 166 and, when it fails, the \<open>throw\<close> of line 194.\<close>

definition ensureLoop :: "nat \<Rightarrow> state \<Rightarrow> state" where
  "ensureLoop e s =
     (if retries (ensures s ! e) < maxRetries s
      then s\<lparr>pending := add_mset (Health (EnsurePre e)) (pending s)\<rparr>
      else s\<lparr>ensures := (ensures s)[e := (ensures s ! e)
                 \<lparr>eoutcome := Rejected (failure_message (maxRetries s))\<rparr>]\<rparr>)"

text \<open>
  After \<open>await this.startOllama()\<close> (line 173): a rejection enters the \<open>catch\<close> block of
  lines 183-190, anything else goes on to the delay of line 176.
\<close>

definition afterStart :: "nat \<Rightarrow> retval promise \<Rightarrow> state \<Rightarrow> state" where
  "afterStart e r s =
     (case r of
        Rejected msg \<Rightarrow>
          (let s1 = s\<lparr>ensures := (ensures s)[e := (ensures s ! e)
                        \<lparr>retries := Suc (retries (ensures s ! e))\<rparr>]\<rparr>
           in if retries (ensures s1 ! e) < maxRetries s1
              then s1\<lparr>pending := add_mset (Delay e False) (pending s1)\<rparr>
              else ensureLoop e s1)
      | _ \<Rightarrow> s\<lparr>pending := add_mset (Delay e True) (pending s)\<rparr>)"

subsection \<open>startOllama (lines 78-160)\<close>

definition not_found_message :: string where
  "not_found_message = ''Ollama executable not found. Please install Ollama first.''"

text \<open>
  \<open>resolve\<close> and \<open>reject\<close> of the promise of call \<open>c\<close>: only the first of them has an
  effect, and it continues the caller awaiting the promise.
\<close>

definition settle :: "nat \<Rightarrow> retval promise \<Rightarrow> state \<Rightarrow> state" where
  "settle c r s =
     (if outcome (calls s ! c) = Pending
      then (let s1 = s\<lparr>calls := (calls s)[c := (calls s ! c)\<lparr>outcome := r\<rparr>]\<rparr>
            in case awaiter (calls s ! c) of
                 None \<Rightarrow> s1
               | Some e \<Rightarrow> afterStart e r s1)
      else s)"

text \<open>\<open>tryNextPath\<close>, lines 96-107.\<close>

definition tryNextPath :: "nat \<Rightarrow> state \<Rightarrow> state" where
  "tryNextPath c s =
     (if pathIndex (calls s ! c) \<ge> length (paths (calls s ! c))
      then settle c (Rejected not_found_message) (s\<lparr>isStarting := False\<rparr>)
      else s\<lparr>calls := (calls s)[c := (calls s ! c)\<lparr>pathIndex := Suc (pathIndex (calls s ! c))\<rparr>],
             pending := add_mset (Probe c (paths (calls s ! c) ! pathIndex (calls s ! c))) (pending s)\<rparr>)"

text \<open>Entry of \<open>startOllama\<close>, lines 78-84; \<open>aw\<close> is the awaiting \<open>ensureOllamaRunning\<close> call.\<close>

definition startOllama :: "nat option \<Rightarrow> state \<Rightarrow> state" where
  "startOllama aw s =
     (let c = length (calls s);
          s1 = s\<lparr>calls := calls s @ [\<lparr>paths = [], pathIndex = 0, outcome = Pending, awaiter = aw\<rparr>]\<rparr>
      in if isStarting s then settle c (Fulfilled RUndefined) s1
         else s1\<lparr>pending := add_mset (Health (StartPre c)) (pending s1)\<rparr>)"

text \<open>Lines 84-94 and 158, once the health check of line 84 has resolved to \<open>running\<close>.\<close>

definition startPre :: "runtime \<Rightarrow> nat \<Rightarrow> bool \<Rightarrow> state \<Rightarrow> state" where
  "startPre rt c running s =
     (if running then settle c (Fulfilled RTrue) s
      else tryNextPath c
             (s\<lparr>isStarting := True,
                calls := (calls s)[c := (calls s ! c)
                  \<lparr>paths := getOllamaPath (platform rt), pathIndex := 0\<rparr>]\<rparr>))"

text \<open>
  The callback of \<open>exec\<close>, lines 107-155: \<open>ok\<close> is \<open>!error\<close>. A successful probe spawns the
  server, stores its handle and arms the settle timer.
\<close>

definition probeDone :: "nat \<Rightarrow> string \<Rightarrow> bool \<Rightarrow> state \<Rightarrow> state" where
  "probeDone c p ok s =
     (if \<not> ok then tryNextPath c s
      else s\<lparr>ollamaProcess := Some (length (children s)),
             children := children s @ [\<lparr>cpath = p, cowner = c, cexited = False\<rparr>],
             pending := add_mset (Settle c) (pending s)\<rparr>)"

text \<open>The \<open>error\<close> listener of a child, lines 128-132.\<close>

definition childError :: "nat \<Rightarrow> state \<Rightarrow> state" where
  "childError h s = tryNextPath (cowner (children s ! h)) (s\<lparr>isStarting := False\<rparr>)"

text \<open>The \<open>exit\<close> listener of a child, lines 134-138.\<close>

definition childExit :: "nat \<Rightarrow> state \<Rightarrow> state" where
  "childExit h s =
     s\<lparr>ollamaProcess := None, isStarting := False,
       children := (children s)[h := (children s ! h)\<lparr>cexited := True\<rparr>]\<rparr>"

text \<open>The timer callback up to its \<open>await\<close>, lines 141-143.\<close>

definition settleTimer :: "nat \<Rightarrow> state \<Rightarrow> state" where
  "settleTimer c s = s\<lparr>isStarting := False, pending := add_mset (Health (StartPost c)) (pending s)\<rparr>"

text \<open>The timer callback after its \<open>await\<close>, lines 143-153.\<close>

definition startPost :: "nat \<Rightarrow> bool \<Rightarrow> state \<Rightarrow> state" where
  "startPost c running s =
     (if running then settle c (Fulfilled RTrue) s
      else tryNextPath c
             (case ollamaProcess s of
                Some h \<Rightarrow> s\<lparr>killed := killed s @ [h], ollamaProcess := None\<rparr>
              | None \<Rightarrow> s))"

subsection \<open>ensureOllamaRunning, continued\<close>

text \<open>Entry, lines 163-166.\<close>

definition ensureOllamaRunning :: "state \<Rightarrow> state" where
  "ensureOllamaRunning s =
     ensureLoop (length (ensures s))
       (s\<lparr>ensures := ensures s @ [\<lparr>retries = 0, eoutcome = Pending\<rparr>]\<rparr>)"

text \<open>Lines 168-173, once the health check of line 168 has resolved.\<close>

definition ensurePre :: "nat \<Rightarrow> bool \<Rightarrow> state \<Rightarrow> state" where
  "ensurePre e running s =
     (if running
      then s\<lparr>ensures := (ensures s)[e := (ensures s ! e)\<lparr>eoutcome := Fulfilled True\<rparr>]\<rparr>
      else startOllama (Some e) s)"

text \<open>Lines 178-182, once the health check of line 178 has resolved.\<close>

definition ensurePost :: "nat \<Rightarrow> bool \<Rightarrow> state \<Rightarrow> state" where
  "ensurePost e running s =
     (if running
      then s\<lparr>ensures := (ensures s)[e := (ensures s ! e)\<lparr>eoutcome := Fulfilled True\<rparr>]\<rparr>
      else ensureLoop e
             (s\<lparr>ensures := (ensures s)[e := (ensures s ! e)
                  \<lparr>retries := Suc (retries (ensures s ! e))\<rparr>]\<rparr>))"

text \<open>
  The end of a \<open>retryDelay\<close> wait: the one of line 176 is followed by the health check of
  line 178, the one of line 189 by the next turn of the loop.
\<close>

definition delayDone :: "nat \<Rightarrow> bool \<Rightarrow> state \<Rightarrow> state" where
  "delayDone e after_try s =
     (if after_try then s\<lparr>pending := add_mset (Health (EnsurePost e)) (pending s)\<rparr>
      else ensureLoop e s)"

subsection \<open>stopOllama (lines 198-204)\<close>

definition stopOllama :: "state \<Rightarrow> state" where
  "stopOllama s =
     (case ollamaProcess s of
        Some h \<Rightarrow> s\<lparr>killed := killed s @ [h], ollamaProcess := None\<rparr>
      | None \<Rightarrow> s)"

subsection \<open>The event loop\<close>

text \<open>
  An event is a call of a method by the host program, or the completion of an operation
  in flight with the result the environment gives it, or a child process emitting
  \<open>error\<close> or \<open>exit\<close>.
\<close>

datatype event =
    CallStart
  | CallEnsure
  | CallStop
  | HealthDone cont http_outcome
  | ProbeDone nat string bool
  | TimerFired nat
  | DelayDone nat bool
  | ChildError nat
  | ChildExit nat

definition take_task :: "task \<Rightarrow> state \<Rightarrow> state" where
  "take_task t s = s\<lparr>pending := pending s - {#t#}\<rparr>"

text \<open>What the awaiting code receives from \<open>isOllamaRunning()\<close> when the request ends with \<open>out\<close>.\<close>

definition health_result :: "runtime \<Rightarrow> 16 word \<Rightarrow> http_outcome \<Rightarrow> bool" where
  "health_result rt port out =
     (isOllamaRunning rt (\<lambda>url. out) (unat port) = Fulfilled True)"

fun resume :: "runtime \<Rightarrow> cont \<Rightarrow> bool \<Rightarrow> state \<Rightarrow> state" where
  "resume rt (StartPre c) b s = startPre rt c b s"
| "resume rt (StartPost c) b s = startPost c b s"
| "resume rt (EnsurePre e) b s = ensurePre e b s"
| "resume rt (EnsurePost e) b s = ensurePost e b s"

text \<open>One turn of the event loop; \<open>None\<close> when the event cannot happen in this state.\<close>

fun step :: "runtime \<Rightarrow> event \<Rightarrow> state \<Rightarrow> state option" where
  "step rt CallStart s = Some (startOllama None s)"
| "step rt CallEnsure s = Some (ensureOllamaRunning s)"
| "step rt CallStop s = Some (stopOllama s)"
| "step rt (HealthDone k out) s =
     (if Health k \<in># pending s
      then Some (resume rt k (health_result rt (defaultPort s) out) (take_task (Health k) s))
      else None)"
| "step rt (ProbeDone c p ok) s =
     (if Probe c p \<in># pending s
      then Some (probeDone c p ok (take_task (Probe c p) s))
      else None)"
| "step rt (TimerFired c) s =
     (if Settle c \<in># pending s
      then Some (settleTimer c (take_task (Settle c) s))
      else None)"
| "step rt (DelayDone e b) s =
     (if Delay e b \<in># pending s
      then Some (delayDone e b (take_task (Delay e b) s))
      else None)"
| "step rt (ChildError h) s =
     (if h < length (children s) \<and> \<not> cexited (children s ! h)
      then Some (childError h s)
      else None)"
| "step rt (ChildExit h) s =
     (if h < length (children s) \<and> \<not> cexited (children s ! h)
      then Some (childExit h s)
      else None)"

fun run :: "runtime \<Rightarrow> event list \<Rightarrow> state \<Rightarrow> state option" where
  "run rt [] s = Some s"
| "run rt (ev # evs) s = (case step rt ev s of None \<Rightarrow> None | Some s' \<Rightarrow> run rt evs s')"

subsection \<open>ensureModel (lines 207-244)\<close>

text \<open>
  The value \<open>response.json()\<close> resolves to. Numbers are restricted to integers: the code
  only compares a length with 0.
\<close>

datatype json =
    JNull
  | JBool bool
  | JNum int
  | JStr string
  | JArr "json list"
  | JObj "(string \<times> json) list"

text \<open>
  Reading property \<open>k\<close> of a parsed value: a \<open>TypeError\<close> on \<open>null\<close>, otherwise the value
  of the property, or \<open>None\<close> for \<open>undefined\<close>. Of two equal keys of an object,
  \<open>JSON.parse\<close> keeps the last.
\<close>

definition get_prop :: "json \<Rightarrow> string \<Rightarrow> string + json option" where
  "get_prop v k =
     (case v of
        JNull \<Rightarrow> Inl ''TypeError''
      | JObj kvs \<Rightarrow> Inr (map_of (rev kvs) k)
      | JArr xs \<Rightarrow> Inr (if k = ''length'' then Some (JNum (int (length xs))) else None)
      | JStr str \<Rightarrow> Inr (if k = ''length'' then Some (JNum (int (length str))) else None)
      | _ \<Rightarrow> Inr None)"

definition truthy :: "json \<Rightarrow> bool" where
  "truthy v =
     (case v of
        JNull \<Rightarrow> False
      | JBool b \<Rightarrow> b
      | JNum n \<Rightarrow> n \<noteq> 0
      | JStr str \<Rightarrow> str \<noteq> []
      | _ \<Rightarrow> True)"

text \<open>The test of line 213, \<open>!data.models || data.models.length === 0\<close>.\<close>

definition no_models :: "json \<Rightarrow> string + bool" where
  "no_models data =
     (case get_prop data ''models'' of
        Inl err \<Rightarrow> Inl err
      | Inr None \<Rightarrow> Inr True
      | Inr (Some m) \<Rightarrow>
          (if \<not> truthy m then Inr True
           else case get_prop m ''length'' of
                  Inl err \<Rightarrow> Inl err
                | Inr len \<Rightarrow> Inr (len = Some (JNum 0))))"

text \<open>
  How the listing request of lines 210-211 ends: the request fails, or it is answered
  with a body that \<open>response.json()\<close> parses (\<open>Some\<close>) or rejects (\<open>None\<close>).
\<close>

datatype listing = QueryFailed string | Body "json option"

text \<open>
  How the \<open>pull\<close> process ends: the \<open>exit\<close> event with its code (\<open>None\<close> for \<open>null\<close>, a
  process ended by a signal), or the \<open>error\<close> event with its message.
\<close>

datatype pull_outcome = PullExit "int option" | PullError string

text \<open>
  The result is the promise the method returns, once settled, and the commands it has
  spawned, each with its arguments. The argument is \<open>None\<close> when the caller passes no
  model name. Without a global \<open>fetch\<close> line 210 throws a \<open>ReferenceError\<close> inside the
  \<open>try\<close>. The promise of lines 216-236 is returned without \<open>await\<close>, so its rejection is
  not caught by line 240.
\<close>

definition ensureModel ::
  "runtime \<Rightarrow> listing \<Rightarrow> pull_outcome \<Rightarrow> string option
     \<Rightarrow> bool promise \<times> (string \<times> string list) list" where
  "ensureModel rt lst pull arg =
     (let modelName = (case arg of None \<Rightarrow> ''llama2'' | Some n \<Rightarrow> n) in
      if \<not> hasFetch rt then (Fulfilled False, [])
      else case lst of
        QueryFailed msg \<Rightarrow> (Fulfilled False, [])
      | Body None \<Rightarrow> (Fulfilled False, [])
      | Body (Some data) \<Rightarrow>
          (case no_models data of
             Inl err \<Rightarrow> (Fulfilled False, [])
           | Inr False \<Rightarrow> (Fulfilled True, [])
           | Inr True \<Rightarrow>
               (let ollamaPath = getOllamaPath (platform rt) ! 0 in
                ((case pull of
                    PullExit code \<Rightarrow>
                      if code = Some 0 then Fulfilled True
                      else Rejected (''Failed to pull '' @ modelName)
                  | PullError msg \<Rightarrow>
                      Rejected (''Error pulling '' @ modelName @ '': '' @ msg)),
                 [(ollamaPath, [''pull'', modelName])]))))"

section \<open>The editor extension, extension.js\<close>

text \<open>
  \<open>MonkeyAI.ensureOllamaReady\<close> (lines 31-68) only calls methods of the supervisor and of
  the editor. The embedding records each such call as an effect and takes what the call
  answers from a script, one entry for each turn of the method: a \<open>Try Again\<close> answer
  makes the method call itself, and the next turn reads the next entry.
\<close>

datatype effect =
    IsOllamaRunningCall
  | EnsureOllamaRunningCall
  | EnsureModelCall string
  | InformationMessage string
  | ErrorMessage string
  | WarningMessage string
  | ConfigUpdate string bool

text \<open>
  The settings \<open>useOllama\<close> and \<open>ollamaModel\<close> (\<open>None\<close> when unset), the field
  \<open>isInitialized\<close>, and the calls made so far.
\<close>

record extension =
  useOllama :: "bool option"
  ollamaModel :: "string option"
  isInitialized :: bool
  effects :: "effect list"

text \<open>
  One entry of the script: what \<open>isOllamaRunning()\<close> resolves to, the messages
  \<open>ensureOllamaRunning()\<close> and \<open>ensureModel()\<close> reject with (\<open>None\<close> when they resolve),
  and the button the user picks in the warning (\<open>None\<close> when it is dismissed).
\<close>

record answers =
  running :: bool
  ensure_error :: "string option"
  model_error :: "string option"
  choice :: "string option"

definition getUseOllama :: "extension \<Rightarrow> bool" where
  "getUseOllama x = (case useOllama x of None \<Rightarrow> True | Some b \<Rightarrow> b)"

definition getOllamaModel :: "extension \<Rightarrow> string" where
  "getOllamaModel x = (case ollamaModel x of None \<Rightarrow> ''llama2'' | Some m \<Rightarrow> m)"

definition effect :: "effect \<Rightarrow> extension \<Rightarrow> extension" where
  "effect f x = x\<lparr>effects := effects x @ [f]\<rparr>"

text \<open>
  The \<open>try\<close> block of lines 40-48: \<open>Inl\<close> carries the message of the error that enters the
  \<open>catch\<close> block, \<open>Inr\<close> the value returned.
\<close>

definition try_start :: "answers \<Rightarrow> extension \<Rightarrow> (string + bool) \<times> extension" where
  "try_start a x =
     (let x1 = effect EnsureOllamaRunningCall
                 (effect (InformationMessage ''Starting Ollama... This might take a moment.'') x)
      in case ensure_error a of
           Some msg \<Rightarrow> (Inl msg, x1)
         | None \<Rightarrow>
             (let x2 = effect (EnsureModelCall (getOllamaModel x1)) x1
              in case model_error a of
                   Some msg \<Rightarrow> (Inl msg, x2)
                 | None \<Rightarrow>
                     (Inr True,
                      effect (InformationMessage ''Ollama is ready!'')
                        (x2\<lparr>isInitialized := True\<rparr>))))"

text \<open>
  The result is \<open>None\<close> when the script ends before the method returns. The pictographs
  that open some messages of the source are left out of the strings.
\<close>

fun ensureOllamaReady :: "answers list \<Rightarrow> extension \<Rightarrow> bool option \<times> extension" where
  "ensureOllamaReady [] x =
     (if \<not> getUseOllama x then (Some True, x) else (None, x))"
| "ensureOllamaReady (a # script) x =
     (if \<not> getUseOllama x then (Some True, x)
      else if isInitialized x \<and> running a then (Some True, effect IsOllamaRunningCall x)
      else
        (let x0 = (if isInitialized x then effect IsOllamaRunningCall x else x)
         in case try_start a x0 of
              (Inr b, x1) \<Rightarrow> (Some b, x1)
            | (Inl msg, x1) \<Rightarrow>
                (let x2 = effect (WarningMessage
                            ''Unable to start Ollama. Would you like to use OpenAI API instead?'')
                            (effect (ErrorMessage (''Failed to start Ollama: '' @ msg)) x1)
                 in if choice a = Some ''Use API'' then
                      (Some True,
                       effect (InformationMessage
                           ''Switched to API mode. Please set your API key in settings.'')
                         (effect (ConfigUpdate ''useOllama'' False) (x2\<lparr>useOllama := Some False\<rparr>)))
                    else if choice a = Some ''Try Again'' then ensureOllamaReady script x2
                    else (Some False, x2))))"

section \<open>Runs of the event loop used in the statements\<close>

text \<open>A Linux host with the \<open>http\<close> fallback, and one with a global \<open>fetch\<close>.\<close>

definition linux_http :: runtime where
  "linux_http = \<lparr>platform = ''linux'', hasFetch = False\<rparr>"

definition linux_fetch :: runtime where
  "linux_fetch = \<lparr>platform = ''linux'', hasFetch = True\<rparr>"

text \<open>The first path of the Linux list has answered its probe; its server has been spawned.\<close>

definition spawned_first :: "event list" where
  "spawned_first =
     [CallStart, HealthDone (StartPre 0) NetworkError,
      ProbeDone 0 ''/usr/local/bin/ollama'' True]"

definition owning_state :: state where
  "owning_state =
     \<lparr>ollamaProcess = Some 0, isStarting = True, defaultPort = 11434, maxRetries = 3,
      retryDelay = 2000,
      children = [\<lparr>cpath = ''/usr/local/bin/ollama'', cowner = 0, cexited = False\<rparr>],
      killed = [],
      calls = [\<lparr>paths = getOllamaPath ''linux'', pathIndex = 1, outcome = Pending,
                awaiter = None\<rparr>],
      ensures = [], pending = {#Settle 0#}\<rparr>"

text \<open>Every probe of call \<open>c\<close> fails, for the paths \<open>ps\<close> in their order.\<close>

definition probes_fail :: "nat \<Rightarrow> string list \<Rightarrow> event list" where
  "probes_fail c ps = map (\<lambda>p. ProbeDone c p False) ps"

text \<open>A call of \<open>startOllama\<close> that has gone through all its paths and rejected its promise.\<close>

definition exhausted :: "runtime \<Rightarrow> nat option \<Rightarrow> startcall" where
  "exhausted rt aw =
     \<lparr>paths = getOllamaPath (platform rt), pathIndex = length (getOllamaPath (platform rt)),
      outcome = Rejected not_found_message, awaiter = aw\<rparr>"

text \<open>
  One turn of the loop of \<open>ensureOllamaRunning\<close> call \<open>e\<close> in which every probe fails: the
  health check of line 168 ends with the first outcome, the one of line 84, in
  \<open>startOllama\<close> call \<open>c\<close>, with the second. The turns follow one another with the delay of
  line 189 between them.
\<close>

definition attempt_fails ::
  "runtime \<Rightarrow> nat \<Rightarrow> nat \<Rightarrow> http_outcome \<times> http_outcome \<Rightarrow> event list" where
  "attempt_fails rt e c os =
     HealthDone (EnsurePre e) (fst os) # HealthDone (StartPre c) (snd os)
       # probes_fail c (getOllamaPath (platform rt))"

fun failing_run ::
  "runtime \<Rightarrow> nat \<Rightarrow> nat \<Rightarrow> (http_outcome \<times> http_outcome) list \<Rightarrow> event list" where
  "failing_run rt e c [] = []"
| "failing_run rt e c [os] = attempt_fails rt e c os"
| "failing_run rt e c (os # rest) =
     attempt_fails rt e c os @ DelayDone e False # failing_run rt e (Suc c) rest"

text \<open>None of the outcomes makes \<open>isOllamaRunning\<close> resolve to true.\<close>

definition unreachable ::
  "runtime \<Rightarrow> 16 word \<Rightarrow> (http_outcome \<times> http_outcome) list \<Rightarrow> bool" where
  "unreachable rt port oss =
     list_all (\<lambda>os. \<not> health_result rt port (fst os) \<and> \<not> health_result rt port (snd os)) oss"

text \<open>
  The handle the supervisor owns is the handle of the process it has spawned last, and
  every handle it has sent a signal to is the handle of a process it has spawned.
\<close>

definition handles_ok :: "state \<Rightarrow> bool" where
  "handles_ok s \<longleftrightarrow>
     (case ollamaProcess s of None \<Rightarrow> True | Some h \<Rightarrow> Suc h = length (children s))
     \<and> list_all (\<lambda>h. h < length (children s)) (killed s)"

text \<open>
  Two runs of one \<open>startOllama\<close> call on a Linux host. In both the child spawned from
  the first path emits \<open>error\<close> while its settle timer is armed, so the listener of line
  128 goes on to the second path, and in both the check after that timer finds the
  service reachable. In the first run the probe of the second path has succeeded before,
  and the second child has a settle timer of its own, still armed. In the second run the
  probe of the second path is still in flight.
\<close>

definition error_then_reachable :: "event list" where
  "error_then_reachable =
     [CallStart, HealthDone (StartPre 0) NetworkError,
      ProbeDone 0 ''/usr/local/bin/ollama'' True,
      ChildError 0,
      ProbeDone 0 ''/usr/bin/ollama'' True,
      TimerFired 0,
      HealthDone (StartPost 0) (Response 200)]"

definition error_then_reachable_early :: "event list" where
  "error_then_reachable_early =
     [CallStart, HealthDone (StartPre 0) NetworkError,
      ProbeDone 0 ''/usr/local/bin/ollama'' True,
      ChildError 0,
      TimerFired 0,
      HealthDone (StartPost 0) (Response 200)]"

text \<open>
  Two runs of \<open>ensureOllamaRunning\<close> on a Linux host in which no health check finds the
  service reachable. Every probe of the first two turns fails. In the third turn of the
  first run only the probe of the last path succeeds, and the child spawned from it emits
  \<open>error\<close>. In the third turn of the second run the child spawned from the first path
  emits \<open>error\<close>; the probe of the second path is answered, with success, after the timer
  callback has killed the first child and gone on to the third path, and before the
  probe of the fourth path fails.
\<close>

definition two_failed_turns :: "event list" where
  "two_failed_turns =
     CallEnsure #
     failing_run linux_http 0 0 [(NetworkError, NetworkError), (NetworkError, NetworkError)] @
     [DelayDone 0 False,
      HealthDone (EnsurePre 0) NetworkError, HealthDone (StartPre 2) NetworkError]"

definition error_on_last_path :: "event list" where
  "error_on_last_path =
     two_failed_turns @
     [ProbeDone 2 ''/usr/local/bin/ollama'' False,
      ProbeDone 2 ''/usr/bin/ollama'' False,
      ProbeDone 2 ''~/.local/bin/ollama'' False,
      ProbeDone 2 ''./ollama'' True,
      ChildError 0]"

definition error_then_exhausted :: "event list" where
  "error_then_exhausted =
     two_failed_turns @
     [ProbeDone 2 ''/usr/local/bin/ollama'' True,
      ChildError 0,
      TimerFired 2,
      HealthDone (StartPost 2) NetworkError,
      ProbeDone 2 ''~/.local/bin/ollama'' False,
      ProbeDone 2 ''/usr/bin/ollama'' True,
      ProbeDone 2 ''./ollama'' False]"

text \<open>
  The managed processes: the children the supervisor has spawned that have not emitted
  \<open>exit\<close> and that it has not sent a termination signal, by their handles.
\<close>

definition managed :: "state \<Rightarrow> nat list" where
  "managed s =
     map fst (filter (\<lambda>hc. \<not> cexited (snd hc) \<and> fst hc \<notin> set (killed s))
       (enumerate 0 (children s)))"

text \<open>
  The host calls \<open>startOllama\<close> twice, the second time before the health check of the
  first call has been answered; the service is not reachable and the first path answers
  both probes.
\<close>

definition two_starts :: "event list" where
  "two_starts =
     [CallStart, CallStart,
      HealthDone (StartPre 0) NetworkError, HealthDone (StartPre 1) NetworkError,
      ProbeDone 0 ''/usr/local/bin/ollama'' True,
      ProbeDone 1 ''/usr/local/bin/ollama'' True]"


text \<open>
  Events of a run in which the host calls nothing more, no child emits \<open>error\<close> and no
  health check finds the service reachable on \<open>port\<close>.
\<close>

fun quiet :: "runtime \<Rightarrow> 16 word \<Rightarrow> event \<Rightarrow> bool" where
  "quiet rt port (HealthDone k out) = (\<not> health_result rt port out)"
| "quiet rt port (ProbeDone c p ok) = True"
| "quiet rt port (TimerFired c) = True"
| "quiet rt port (DelayDone e b) = True"
| "quiet rt port (ChildExit h) = True"
| "quiet rt port ev = False"

text \<open>The promise of a \<open>startOllama\<close> call was rejected for want of an executable.\<close>

definition given_up :: "startcall \<Rightarrow> bool" where
  "given_up k \<longleftrightarrow> outcome k = Rejected not_found_message"

text \<open>
  The states of one \<open>ensureOllamaRunning\<close> call, alone on a new supervisor, under such
  events: in a turn, before \<open>startOllama\<close> is called or in the delay after it was rejected;
  inside the \<open>startOllama\<close> call of the turn, with exactly one operation in flight; or
  after the \<open>throw\<close> of line 194.
\<close>

definition lone_ensure :: "state \<Rightarrow> bool" where
  "lone_ensure s \<longleftrightarrow>
     length (ensures s) = 1 \<and> list_all (\<lambda>k. awaiter k = Some 0) (calls s) \<and>
     (let r = retries (ensures s ! 0); out = eoutcome (ensures s ! 0); cs = calls s in
      (out = Pending \<and> r < maxRetries s \<and> length cs = r \<and> list_all given_up cs
         \<and> ollamaProcess s = None \<and> \<not> isStarting s
         \<and> (pending s = {#Health (EnsurePre 0)#} \<or> pending s = {#Delay 0 False#}))
      \<or> (out = Pending \<and> r < maxRetries s \<and> length cs = Suc r \<and> list_all given_up (take r cs)
         \<and> outcome (cs ! r) = Pending
         \<and> (pending s = {#Health (StartPre r)#} \<and> ollamaProcess s = None \<and> \<not> isStarting s
            \<or> (\<exists>p. pending s = {#Probe r p#}) \<and> ollamaProcess s = None
            \<or> pending s = {#Settle r#}
            \<or> pending s = {#Health (StartPost r)#}))
      \<or> (out = Rejected (failure_message (maxRetries s)) \<and> r = maxRetries s \<and> length cs = r
         \<and> list_all given_up cs \<and> ollamaProcess s = None \<and> pending s = {#}))"

text \<open>Events of a run in which the host calls nothing more and no child emits \<open>error\<close>.\<close>

fun calm :: "event \<Rightarrow> bool" where
  "calm CallStart = False"
| "calm CallEnsure = False"
| "calm CallStop = False"
| "calm (ChildError h) = False"
| "calm ev = True"

text \<open>
  The states of one \<open>startOllama\<close> call, alone on a new supervisor, under such events:
  its promise is pending and exactly one operation is in flight, or its promise is settled
  and none is.
\<close>

definition lone_start :: "state \<Rightarrow> bool" where
  "lone_start s \<longleftrightarrow>
     length (calls s) = 1 \<and> awaiter (calls s ! 0) = None \<and>
     (outcome (calls s ! 0) = Pending
        \<and> (pending s = {#Health (StartPre 0)#} \<or> (\<exists>p. pending s = {#Probe 0 p#})
           \<or> pending s = {#Settle 0#} \<or> pending s = {#Health (StartPost 0)#})
      \<or> outcome (calls s ! 0) \<noteq> Pending \<and> pending s = {#})"

text \<open>The extension in API mode, and a turn in which the supervisor gives up.\<close>

definition api_mode :: extension where
  "api_mode = \<lparr>useOllama = Some False, ollamaModel = None, isInitialized = False, effects = []\<rparr>"

definition gives_up :: answers where
  "gives_up =
     \<lparr>running = False, ensure_error = Some (failure_message 3), model_error = None,
      choice = Some ''Try Again''\<rparr>"

text \<open>The bodies \<open>{"models":[]}\<close> and \<open>{"models":[{"name":"llama2"}]}\<close>.\<close>

definition no_models_body :: json where
  "no_models_body = JObj [(''models'', JArr [])]"

definition llama2_body :: json where
  "llama2_body = JObj [(''models'', JArr [JObj [(''name'', JStr ''llama2'')]])]"

section \<open>Properties\<close>

subsection \<open>The port of the supervisor\<close>

lemma port_fits [simp]: "\<not> 65535 < unat (port :: 16 word)"
  using unsigned_less [of port, where ?'a = nat] by simp

lemma default_port [simp]: "unat (11434 :: 16 word) = 11434"
  by simp

subsection \<open>What the sections of the methods leave unchanged\<close>

lemma ensureLoop_frame [simp]:
  "children (ensureLoop e s) = children s"
  "ollamaProcess (ensureLoop e s) = ollamaProcess s"
  "killed (ensureLoop e s) = killed s"
  "isStarting (ensureLoop e s) = isStarting s"
  "calls (ensureLoop e s) = calls s"
  "maxRetries (ensureLoop e s) = maxRetries s"
  "defaultPort (ensureLoop e s) = defaultPort s"
  by (simp_all add: ensureLoop_def)

lemma afterStart_frame [simp]:
  "children (afterStart e r s) = children s"
  "ollamaProcess (afterStart e r s) = ollamaProcess s"
  "killed (afterStart e r s) = killed s"
  "isStarting (afterStart e r s) = isStarting s"
  "calls (afterStart e r s) = calls s"
  "maxRetries (afterStart e r s) = maxRetries s"
  "defaultPort (afterStart e r s) = defaultPort s"
  by (simp_all add: afterStart_def Let_def split: promise.splits)

lemma settle_frame [simp]:
  "children (settle c r s) = children s"
  "ollamaProcess (settle c r s) = ollamaProcess s"
  "killed (settle c r s) = killed s"
  "isStarting (settle c r s) = isStarting s"
  "length (calls (settle c r s)) = length (calls s)"
  "maxRetries (settle c r s) = maxRetries s"
  "defaultPort (settle c r s) = defaultPort s"
  by (simp_all add: settle_def Let_def split: option.splits)

lemma tryNextPath_frame [simp]:
  "children (tryNextPath c s) = children s"
  "ollamaProcess (tryNextPath c s) = ollamaProcess s"
  "killed (tryNextPath c s) = killed s"
  "length (calls (tryNextPath c s)) = length (calls s)"
  "maxRetries (tryNextPath c s) = maxRetries s"
  "defaultPort (tryNextPath c s) = defaultPort s"
  by (simp_all add: tryNextPath_def)

lemma startOllama_frame [simp]:
  "children (startOllama aw s) = children s"
  "ollamaProcess (startOllama aw s) = ollamaProcess s"
  "killed (startOllama aw s) = killed s"
  "isStarting (startOllama aw s) = isStarting s"
  "length (calls (startOllama aw s)) = Suc (length (calls s))"
  "maxRetries (startOllama aw s) = maxRetries s"
  "defaultPort (startOllama aw s) = defaultPort s"
  by (simp_all add: startOllama_def Let_def)

lemma run_append:
  "run rt (xs @ ys) s = (case run rt xs s of None \<Rightarrow> None | Some s' \<Rightarrow> run rt ys s')"
  by (induction xs arbitrary: s) (auto split: option.splits)

subsection \<open>Handles\<close>

lemma handles_ok_new: "handles_ok new_manager"
  by (simp add: handles_ok_def new_manager_def)

lemma handles_ok_step: "handles_ok s \<Longrightarrow> step rt ev s = Some s' \<Longrightarrow> handles_ok s'"
proof (cases ev)
  case (HealthDone k out)
  assume "handles_ok s" "step rt ev s = Some s'"
  with HealthDone show ?thesis
    by (cases k)
       (auto simp: handles_ok_def take_task_def startPre_def startPost_def ensurePre_def
          ensurePost_def list_all_iff split: if_splits option.splits)
qed (auto simp: handles_ok_def take_task_def stopOllama_def ensureOllamaRunning_def probeDone_def
       settleTimer_def delayDone_def childError_def childExit_def list_all_iff less_Suc_eq
       split: if_splits option.splits)

lemma handles_ok_run: "handles_ok s \<Longrightarrow> run rt evs s = Some s' \<Longrightarrow> handles_ok s'"
proof (induction evs arbitrary: s)
  case Nil
  then show ?case by simp
next
  case (Cons ev evs)
  then show ?case
    by (auto split: option.splits dest: handles_ok_step)
qed

lemma run_spawned_first: "run linux_http spawned_first new_manager = Some owning_state"
  by (simp add: spawned_first_def linux_http_def new_manager_def owning_state_def
      startOllama_def health_result_def isOllamaRunning_def take_task_def startPre_def
      tryNextPath_def getOllamaPath_def probeDone_def Let_def)

subsection \<open>stopOllama\<close>

text \<open>
  Claim C8. When a handle is owned, \<open>stopOllama\<close> sends it a termination signal and clears
  the field; when none is owned it changes nothing. It spawns nothing, a second call
  after the first changes nothing more, and at any moment of any run of a new supervisor
  every handle signalled up to and including the stop is the handle of a process the
  supervisor itself has spawned.
\<close>

theorem stopOllama_spec:
  "(\<forall>h. ollamaProcess s = Some h \<longrightarrow>
        stopOllama s = s\<lparr>killed := killed s @ [h], ollamaProcess := None\<rparr>)
   \<and> (ollamaProcess s = None \<longrightarrow> stopOllama s = s)
   \<and> ollamaProcess (stopOllama s) = None
   \<and> stopOllama (stopOllama s) = stopOllama s
   \<and> children (stopOllama s) = children s
   \<and> (run rt evs new_manager = Some s \<longrightarrow>
        (\<forall>h \<in> set (killed (stopOllama s)). h < length (children s)))"
proof -
  have "run rt evs new_manager = Some s \<Longrightarrow> handles_ok (stopOllama s)"
    using handles_ok_run [OF handles_ok_new] handles_ok_step [of s rt CallStop] by simp
  then show ?thesis
    by (auto simp: stopOllama_def handles_ok_def list_all_iff split: option.splits)
qed

theorem stopOllama_spec_witness:
  "run linux_http spawned_first new_manager = Some owning_state
   \<and> ollamaProcess owning_state = Some 0
   \<and> stopOllama owning_state = owning_state\<lparr>killed := [0], ollamaProcess := None\<rparr>
   \<and> set (killed (stopOllama owning_state)) \<subseteq> {..<length (children owning_state)}
   \<and> ollamaProcess new_manager = None
   \<and> stopOllama new_manager = new_manager"
  using stopOllama_spec [of owning_state linux_http spawned_first]
    stopOllama_spec [of new_manager linux_http "[]"] run_spawned_first
  by (simp add: owning_state_def new_manager_def)

lemmas machine_defs =
  startOllama_def health_result_def isOllamaRunning_def take_task_def startPre_def startPost_def
  tryNextPath_def getOllamaPath_def probeDone_def settle_def childError_def childExit_def
  settleTimer_def ensureOllamaRunning_def ensureLoop_def ensurePre_def ensurePost_def
  afterStart_def delayDone_def stopOllama_def Let_def

subsection \<open>The guard of startOllama\<close>

text \<open>
  A call of \<open>startOllama\<close> made while \<open>isStarting\<close> is set returns at once: its promise is
  fulfilled with no value, nothing is spawned, no operation is put in flight, and no
  other field changes. In every state a new supervisor can reach, the handle in the
  field \<open>ollamaProcess\<close>, if any, is the handle of the process spawned last.
\<close>

lemma guarded_start_returns_at_once:
  "isStarting s \<Longrightarrow>
   step rt CallStart s = Some (s\<lparr>calls := calls s @
     [\<lparr>paths = [], pathIndex = 0, outcome = Fulfilled RUndefined, awaiter = None\<rparr>]\<rparr>)"
  by (simp add: startOllama_def settle_def Let_def)

lemma owned_handle_is_last_child:
  "run rt evs new_manager = Some s \<Longrightarrow> ollamaProcess s = Some h \<Longrightarrow>
   Suc h = length (children s)"
  using handles_ok_run [OF handles_ok_new, of rt evs s] by (simp add: handles_ok_def)

text \<open>
  Claim C2. The run \<open>two_starts\<close> of a new supervisor. Line 79 tests \<open>isStarting\<close> before
  the \<open>await\<close> of line 84 and line 89 sets it after, so the second call passes the guard
  while the health check of the first is in flight. When the first call has set the flag,
  the health check of the second is still in flight, and what continues after it does not
  test the flag again. Both calls probe the first path and spawn a server from it: two
  managed processes are alive, the field holds the handle of the second only, and
  \<open>stopOllama\<close> then signals the second and leaves the first running with no handle to it.
\<close>

theorem two_starts_spawn_two_servers:
  "map_option (\<lambda>s. (isStarting s, map outcome (calls s), pending s))
     (run linux_http (take 3 two_starts) new_manager)
     = Some (True, [Pending, Pending],
         {#Health (StartPre 1), Probe 0 ''/usr/local/bin/ollama''#})
   \<and> map_option (\<lambda>s. (isStarting s, map outcome (calls s), map cpath (children s), managed s,
         ollamaProcess s, killed s))
     (run linux_http two_starts new_manager)
     = Some (True, [Pending, Pending], [''/usr/local/bin/ollama'', ''/usr/local/bin/ollama''],
         [0, 1], Some 1, [])
   \<and> map_option (\<lambda>s. (managed s, ollamaProcess s, killed s))
     (run linux_http (two_starts @ [CallStop]) new_manager)
     = Some ([0], None, [1])"
  by (simp add: two_starts_def managed_def linux_http_def new_manager_def machine_defs)

subsection \<open>The settle timer\<close>



subsection \<open>A service that is already reachable\<close>

text \<open>
  Claim C6. When the health check made on entry finds the service reachable,
  \<open>startOllama\<close>, called while no start is in progress, fulfils its promise with \<open>true\<close>,
  and \<open>ensureOllamaRunning\<close>, with a positive \<open>maxRetries\<close>, fulfils its promise with
  \<open>true\<close>; neither spawns a process, arms a timer or changes any other field. Called
  while a start is in progress, \<open>startOllama\<close> makes no health check: it returns at once,
  without a value, and spawns nothing either.
\<close>

theorem reachable_returns_without_spawn:
  "health_result rt (defaultPort s) out \<Longrightarrow>
   (\<not> isStarting s \<longrightarrow>
      run rt [CallStart, HealthDone (StartPre (length (calls s))) out] s =
        Some (s\<lparr>calls := calls s @
          [\<lparr>paths = [], pathIndex = 0, outcome = Fulfilled RTrue, awaiter = None\<rparr>]\<rparr>))
   \<and> (isStarting s \<longrightarrow>
      run rt [CallStart] s =
        Some (s\<lparr>calls := calls s @
          [\<lparr>paths = [], pathIndex = 0, outcome = Fulfilled RUndefined, awaiter = None\<rparr>]\<rparr>))
   \<and> (0 < maxRetries s \<longrightarrow>
      run rt [CallEnsure, HealthDone (EnsurePre (length (ensures s))) out] s =
        Some (s\<lparr>ensures := ensures s @ [\<lparr>retries = 0, eoutcome = Fulfilled True\<rparr>]\<rparr>))"
  by (simp add: startOllama_def ensureOllamaRunning_def ensureLoop_def take_task_def
      startPre_def settle_def ensurePre_def Let_def)

theorem reachable_returns_without_spawn_witness:
  "health_result linux_http (defaultPort new_manager) (Response 200)
   \<and> \<not> isStarting new_manager \<and> 0 < maxRetries new_manager
   \<and> run linux_http [CallStart, HealthDone (StartPre 0) (Response 200)] new_manager =
        Some (new_manager\<lparr>calls :=
          [\<lparr>paths = [], pathIndex = 0, outcome = Fulfilled RTrue, awaiter = None\<rparr>]\<rparr>)
   \<and> run linux_http [CallEnsure, HealthDone (EnsurePre 0) (Response 200)] new_manager =
        Some (new_manager\<lparr>ensures := [\<lparr>retries = 0, eoutcome = Fulfilled True\<rparr>]\<rparr>)
   \<and> isStarting owning_state
   \<and> run linux_http [CallStart] owning_state =
        Some (owning_state\<lparr>calls := calls owning_state @
          [\<lparr>paths = [], pathIndex = 0, outcome = Fulfilled RUndefined, awaiter = None\<rparr>]\<rparr>)"
proof -
  have h: "health_result linux_http (defaultPort new_manager) (Response 200)"
    and h': "health_result linux_http (defaultPort owning_state) (Response 200)"
    by (simp_all add: health_result_def isOllamaRunning_def linux_http_def)
  have "isStarting owning_state"
    by (simp add: owning_state_def)
  with reachable_returns_without_spawn [OF h'] have
    "run linux_http [CallStart] owning_state =
        Some (owning_state\<lparr>calls := calls owning_state @
          [\<lparr>paths = [], pathIndex = 0, outcome = Fulfilled RUndefined, awaiter = None\<rparr>]\<rparr>)"
    by blast
  then show ?thesis
    using reachable_returns_without_spawn [OF h] h \<open>isStarting owning_state\<close>
    by (simp add: new_manager_def)
qed

subsection \<open>isOllamaRunning\<close>

text \<open>
  For a port a URL can carry, and for any port with a global \<open>fetch\<close>, the promise is
  resolved, to true or to false, and it is resolved to true only on a response: with
  \<open>fetch\<close> one of a status from 200 to 299, without it one of status 200. Without \<open>fetch\<close>
  a greater port rejects the promise.
\<close>

lemma isOllamaRunning_resolves:
  "p \<le> 65535 \<or> hasFetch rt \<Longrightarrow>
   isOllamaRunning rt net p = Fulfilled True \<or> isOllamaRunning rt net p = Fulfilled False"
  by (auto simp add: isOllamaRunning_def Let_def split: http_outcome.splits)

lemma isOllamaRunning_true_iff:
  "isOllamaRunning rt net p = Fulfilled True \<longleftrightarrow>
     p \<le> 65535 \<and>
     (\<exists>st. net (health_url p) = Response st \<and>
        (if hasFetch rt then 200 \<le> st \<and> st \<le> 299 else st = 200))"
  by (auto simp add: isOllamaRunning_def Let_def split: http_outcome.splits)

lemma isOllamaRunning_rejects_beyond_65535:
  "65535 < p \<Longrightarrow> \<not> hasFetch rt \<Longrightarrow> isOllamaRunning rt net p = Rejected ''Invalid URL''"
  by (simp add: isOllamaRunning_def)

lemma isOllamaRunning_rejects_65536:
  "isOllamaRunning linux_http (\<lambda>url. NetworkError) 65536 = Rejected ''Invalid URL''
   \<and> isOllamaRunning linux_fetch (\<lambda>url. NetworkError) 65536 = Fulfilled False"
  by (simp add: isOllamaRunning_def linux_fetch_def linux_http_def)

text \<open>
  Claim C3. With a global \<open>fetch\<close> the health check resolves to true on the status 204,
  which is not 200; the \<open>http\<close> fallback resolves to false on the same answer.
\<close>

theorem isOllamaRunning_fetch_accepts_204:
  "isOllamaRunning linux_fetch (\<lambda>url. Response 204) 11434 = Fulfilled True
   \<and> isOllamaRunning linux_http (\<lambda>url. Response 204) 11434 = Fulfilled False"
  by (simp add: isOllamaRunning_def linux_fetch_def linux_http_def)

subsection \<open>Every probe fails\<close>

lemma probes_fail_run:
  "c < length (calls s) \<Longrightarrow> pathIndex (calls s ! c) \<le> length (paths (calls s ! c)) \<Longrightarrow>
   run rt (probes_fail c (drop (pathIndex (calls s ! c)) (paths (calls s ! c)))) (tryNextPath c s) =
     Some (settle c (Rejected not_found_message)
       (s\<lparr>isStarting := False,
          calls := (calls s)[c := (calls s ! c)\<lparr>pathIndex := length (paths (calls s ! c))\<rparr>]\<rparr>))"
proof (induction "length (paths (calls s ! c)) - pathIndex (calls s ! c)" arbitrary: s)
  case 0
  then have eq: "pathIndex (calls s ! c) = length (paths (calls s ! c))" by simp
  have "(calls s ! c)\<lparr>pathIndex := length (paths (calls s ! c))\<rparr> = calls s ! c"
    by (cases "calls s ! c") (use eq in simp)
  then have upd: "(calls s)[c := (calls s ! c)\<lparr>pathIndex := length (paths (calls s ! c))\<rparr>] = calls s"
    by (simp only: list_update_id)
  show ?case
    by (simp add: probes_fail_def tryNextPath_def eq upd)
next
  case (Suc n)
  let ?k = "calls s ! c"
  let ?s2 = "s\<lparr>calls := (calls s)[c := ?k\<lparr>pathIndex := Suc (pathIndex ?k)\<rparr>]\<rparr>"
  from Suc.hyps(2) have lt: "pathIndex ?k < length (paths ?k)" by simp
  have unf: "tryNextPath c s =
      ?s2\<lparr>pending := add_mset (Probe c (paths ?k ! pathIndex ?k)) (pending s)\<rparr>"
    using lt by (simp add: tryNextPath_def)
  have drop: "drop (pathIndex ?k) (paths ?k) =
      paths ?k ! pathIndex ?k # drop (Suc (pathIndex ?k)) (paths ?k)"
    using lt by (simp add: Cons_nth_drop_Suc)
  have step1: "step rt (ProbeDone c (paths ?k ! pathIndex ?k) False) (tryNextPath c s) =
      Some (tryNextPath c ?s2)"
    by (simp add: unf probeDone_def take_task_def)
  have k2: "calls ?s2 ! c = ?k\<lparr>pathIndex := Suc (pathIndex ?k)\<rparr>"
    using Suc.prems(1) by simp
  have "n = length (paths (calls ?s2 ! c)) - pathIndex (calls ?s2 ! c)"
    using Suc.hyps(2) Suc.prems(1) by simp
  moreover have "c < length (calls ?s2)" using Suc.prems(1) by simp
  moreover have "pathIndex (calls ?s2 ! c) \<le> length (paths (calls ?s2 ! c))"
    using lt Suc.prems(1) by simp
  ultimately have IH: "run rt (probes_fail c (drop (pathIndex (calls ?s2 ! c)) (paths (calls ?s2 ! c))))
      (tryNextPath c ?s2) =
     Some (settle c (Rejected not_found_message)
       (?s2\<lparr>isStarting := False,
          calls := (calls ?s2)[c := (calls ?s2 ! c)\<lparr>pathIndex := length (paths (calls ?s2 ! c))\<rparr>]\<rparr>))"
    by (rule Suc.hyps(1))
  have "run rt (probes_fail c (drop (pathIndex ?k) (paths ?k))) (tryNextPath c s) =
      run rt (probes_fail c (drop (Suc (pathIndex ?k)) (paths ?k))) (tryNextPath c ?s2)"
    by (simp only: probes_fail_def drop list.map run.simps step1 option.case)
  then show ?case
    using IH Suc.prems(1) by simp
qed

lemma probes_fail_from_start:
  assumes "\<not> isStarting s"
  shows "run rt (probes_fail (length (calls s)) (getOllamaPath (platform rt)))
           (tryNextPath (length (calls s))
             (s\<lparr>isStarting := True,
                calls := calls s @ [\<lparr>paths = getOllamaPath (platform rt), pathIndex = 0,
                  outcome = Pending, awaiter = aw\<rparr>]\<rparr>)) =
         Some (case aw of
                 None \<Rightarrow> s\<lparr>calls := calls s @ [exhausted rt None]\<rparr>
               | Some e \<Rightarrow> afterStart e (Rejected not_found_message)
                             (s\<lparr>calls := calls s @ [exhausted rt (Some e)]\<rparr>))"
proof -
  let ?c = "length (calls s)"
  let ?s1 = "s\<lparr>isStarting := True,
     calls := calls s @ [\<lparr>paths = getOllamaPath (platform rt), pathIndex = 0, outcome = Pending,
        awaiter = aw\<rparr>]\<rparr>"
  have same: "s\<lparr>isStarting := False\<rparr> = s"
    using assms by simp
  have "run rt (probes_fail ?c (drop (pathIndex (calls ?s1 ! ?c)) (paths (calls ?s1 ! ?c)))) (tryNextPath ?c ?s1)
     = Some (settle ?c (Rejected not_found_message)
       (?s1\<lparr>isStarting := False,
          calls := (calls ?s1)[?c := (calls ?s1 ! ?c)\<lparr>pathIndex := length (paths (calls ?s1 ! ?c))\<rparr>]\<rparr>))"
    by (rule probes_fail_run) simp_all
  then show ?thesis
    using assms by (simp add: settle_def exhausted_def same split: option.splits)
qed

lemma startOllama_fails:
  assumes "\<not> isStarting s" "\<not> health_result rt (defaultPort s) out"
  shows "run rt (CallStart # HealthDone (StartPre (length (calls s))) out
            # probes_fail (length (calls s)) (getOllamaPath (platform rt))) s =
         Some (s\<lparr>calls := calls s @ [exhausted rt None]\<rparr>)"
  using assms probes_fail_from_start [of s rt None]
  by (simp add: startOllama_def Let_def take_task_def startPre_def)

lemma attempt_fails_run:
  assumes "\<not> isStarting s" "\<not> health_result rt (defaultPort s) (fst os)"
    "\<not> health_result rt (defaultPort s) (snd os)" "retries (ensures s ! e) < maxRetries s"
  shows "run rt (attempt_fails rt e (length (calls s)) os) (ensureLoop e s) =
         Some (afterStart e (Rejected not_found_message)
                 (s\<lparr>calls := calls s @ [exhausted rt (Some e)]\<rparr>))"
  using assms probes_fail_from_start [of s rt "Some e"]
  by (simp add: attempt_fails_def ensureLoop_def ensurePre_def startOllama_def Let_def
      take_task_def startPre_def)


lemma failing_run_rejects:
  "\<not> isStarting s \<Longrightarrow> unreachable rt (defaultPort s) oss \<Longrightarrow> e < length (ensures s) \<Longrightarrow>
   retries (ensures s ! e) + length oss = maxRetries s \<Longrightarrow>
   run rt (failing_run rt e (length (calls s)) oss) (ensureLoop e s) =
     Some (s\<lparr>calls := calls s @ replicate (length oss) (exhausted rt (Some e)),
             ensures := (ensures s)[e := \<lparr>retries = maxRetries s,
               eoutcome = Rejected (failure_message (maxRetries s))\<rparr>]\<rparr>)"
proof (induction oss arbitrary: s)
  case Nil
  then have "retries (ensures s ! e) = maxRetries s" by simp
  then have thrown: "(ensures s ! e)\<lparr>eoutcome := Rejected (failure_message (maxRetries s))\<rparr> =
      \<lparr>retries = maxRetries s, eoutcome = Rejected (failure_message (maxRetries s))\<rparr>"
    by (cases "ensures s ! e") simp
  show ?case
    using Nil by (simp add: ensureLoop_def thrown)
next
  case (Cons os rest)
  let ?s1 = "s\<lparr>calls := calls s @ [exhausted rt (Some e)],
                ensures := (ensures s)[e := (ensures s ! e)
                  \<lparr>retries := Suc (retries (ensures s ! e))\<rparr>]\<rparr>"
  from Cons.prems have un: "\<not> health_result rt (defaultPort s) (fst os)"
      "\<not> health_result rt (defaultPort s) (snd os)" "unreachable rt (defaultPort s) rest"
    by (simp_all add: unreachable_def)
  from Cons.prems have lt: "retries (ensures s ! e) < maxRetries s" by simp
  have att: "run rt (attempt_fails rt e (length (calls s)) os) (ensureLoop e s) =
      Some (afterStart e (Rejected not_found_message)
              (s\<lparr>calls := calls s @ [exhausted rt (Some e)]\<rparr>))"
    using Cons.prems(1) un(1,2) lt by (rule attempt_fails_run)
  have next_turn: "run rt (failing_run rt e (length (calls s)) (os # rest)) (ensureLoop e s) =
      run rt (failing_run rt e (Suc (length (calls s))) rest) (ensureLoop e ?s1)"
  proof (cases rest)
    case Nil
    with Cons.prems(3,4) show ?thesis
      by (simp add: att afterStart_def Let_def)
  next
    case (Cons os' rest')
    with Cons.prems(3,4) show ?thesis
      by (simp add: run_append att afterStart_def Let_def take_task_def delayDone_def)
  qed
  have "run rt (failing_run rt e (length (calls ?s1)) rest) (ensureLoop e ?s1) =
     Some (?s1\<lparr>calls := calls ?s1 @ replicate (length rest) (exhausted rt (Some e)),
             ensures := (ensures ?s1)[e := \<lparr>retries = maxRetries ?s1,
               eoutcome = Rejected (failure_message (maxRetries ?s1))\<rparr>]\<rparr>)"
    using Cons.prems un(3) by (intro Cons.IH) simp_all
  then show ?case
    by (simp add: next_turn)
qed

lemma ensureOllamaRunning_fails:
  assumes "\<not> isStarting s" "unreachable rt (defaultPort s) oss" "length oss = maxRetries s"
  shows "run rt (CallEnsure # failing_run rt (length (ensures s)) (length (calls s)) oss) s =
     Some (s\<lparr>calls := calls s @ replicate (maxRetries s) (exhausted rt (Some (length (ensures s)))),
             ensures := ensures s @ [\<lparr>retries = maxRetries s,
               eoutcome = Rejected (failure_message (maxRetries s))\<rparr>]\<rparr>)"
  using assms
    failing_run_rejects [of "s\<lparr>ensures := ensures s @ [\<lparr>retries = 0, eoutcome = Pending\<rparr>]\<rparr>"
      rt oss "length (ensures s)"]
  by (simp add: ensureOllamaRunning_def)

lemma not_found_message_mentions: "sublist ''executable not found'' not_found_message"
proof -
  have "not_found_message = ''Ollama '' @ ''executable not found'' @ ''. Please install Ollama first.''"
    by (simp add: not_found_message_def)
  then show ?thesis
    unfolding sublist_def by blast
qed

lemma failure_message_3: "failure_message 3 = ''Failed to start Ollama after 3 attempts''"
  by (simp add: failure_message_def show_nat.simps)

lemma linux_paths: "length (getOllamaPath ''linux'') = 4"
  by (simp add: getOllamaPath_def)

text \<open>
  Claim C5. From any state in which no start is in progress, when the service is not
  reachable and the probe of every candidate path fails, \<open>startOllama\<close> rejects its
  promise with a message that contains \<open>executable not found\<close>, having spawned nothing.
  A call of \<open>ensureOllamaRunning\<close> after that, with the service unreachable at every
  check and every probe failing again, makes \<open>maxRetries\<close> calls of \<open>startOllama\<close>, each
  rejected, and rejects its own promise with the message that names \<open>maxRetries\<close>; for
  the value 3 of the constructor the message is \<open>Failed to start Ollama after 3 attempts\<close>.
\<close>

theorem all_probes_fail:
  assumes "\<not> isStarting s" and "\<not> health_result rt (defaultPort s) out"
    and "unreachable rt (defaultPort s) oss" and "length oss = maxRetries s"
  shows "run rt (CallStart # HealthDone (StartPre (length (calls s))) out
                  # probes_fail (length (calls s)) (getOllamaPath (platform rt))) s
           = Some (s\<lparr>calls := calls s @ [exhausted rt None]\<rparr>)
     \<and> outcome (exhausted rt None) = Rejected not_found_message
     \<and> sublist ''executable not found'' not_found_message
     \<and> run rt (CallEnsure # failing_run rt (length (ensures s)) (Suc (length (calls s))) oss)
           (s\<lparr>calls := calls s @ [exhausted rt None]\<rparr>)
           = Some (s\<lparr>calls := calls s @ exhausted rt None
                       # replicate (maxRetries s) (exhausted rt (Some (length (ensures s)))),
                     ensures := ensures s @ [\<lparr>retries = maxRetries s,
                       eoutcome = Rejected (failure_message (maxRetries s))\<rparr>]\<rparr>)
     \<and> (maxRetries s = 3 \<longrightarrow>
           failure_message (maxRetries s) = ''Failed to start Ollama after 3 attempts'')"
proof -
  let ?s' = "s\<lparr>calls := calls s @ [exhausted rt None]\<rparr>"
  have first: "run rt (CallStart # HealthDone (StartPre (length (calls s))) out
      # probes_fail (length (calls s)) (getOllamaPath (platform rt))) s = Some ?s'"
    using assms(1,2) by (rule startOllama_fails)
  have "\<not> isStarting ?s'" "unreachable rt (defaultPort ?s') oss" "length oss = maxRetries ?s'"
    using assms by simp_all
  then have "run rt (CallEnsure # failing_run rt (length (ensures ?s')) (length (calls ?s')) oss) ?s' =
     Some (?s'\<lparr>calls := calls ?s' @ replicate (maxRetries ?s') (exhausted rt (Some (length (ensures ?s')))),
             ensures := ensures ?s' @ [\<lparr>retries = maxRetries ?s',
               eoutcome = Rejected (failure_message (maxRetries ?s'))\<rparr>]\<rparr>)"
    by (rule ensureOllamaRunning_fails)
  then have second: "run rt (CallEnsure # failing_run rt (length (ensures s)) (Suc (length (calls s))) oss) ?s' =
     Some (s\<lparr>calls := calls s @ exhausted rt None
                       # replicate (maxRetries s) (exhausted rt (Some (length (ensures s)))),
             ensures := ensures s @ [\<lparr>retries = maxRetries s,
               eoutcome = Rejected (failure_message (maxRetries s))\<rparr>]\<rparr>)"
    by simp
  have third: "outcome (exhausted rt None) = Rejected not_found_message"
    by (simp add: exhausted_def)
  show ?thesis
    using first second third not_found_message_mentions failure_message_3 by simp
qed

theorem all_probes_fail_witness:
  "\<not> isStarting new_manager \<and> \<not> health_result linux_http (defaultPort new_manager) NetworkError
   \<and> unreachable linux_http (defaultPort new_manager)
        [(NetworkError, TimedOut), (Response 503, NetworkError), (TimedOut, NetworkError)]
   \<and> length (getOllamaPath (platform linux_http)) = 4
   \<and> maxRetries new_manager = 3
   \<and> run linux_http (CallStart # HealthDone (StartPre 0) NetworkError
          # probes_fail 0 (getOllamaPath (platform linux_http))) new_manager
        = Some (new_manager\<lparr>calls := [exhausted linux_http None]\<rparr>)
   \<and> run linux_http (CallEnsure # failing_run linux_http 0 1
          [(NetworkError, TimedOut), (Response 503, NetworkError), (TimedOut, NetworkError)])
          (new_manager\<lparr>calls := [exhausted linux_http None]\<rparr>)
        = Some (new_manager\<lparr>calls := exhausted linux_http None
                    # replicate 3 (exhausted linux_http (Some 0)),
                  ensures := [\<lparr>retries = 3,
                    eoutcome = Rejected ''Failed to start Ollama after 3 attempts''\<rparr>]\<rparr>)"
proof -
  have h: "\<not> isStarting new_manager"
      "\<not> health_result linux_http (defaultPort new_manager) NetworkError"
      "unreachable linux_http (defaultPort new_manager)
        [(NetworkError, TimedOut), (Response 503, NetworkError), (TimedOut, NetworkError)]"
      "length [(NetworkError, TimedOut), (Response 503, NetworkError), (TimedOut, NetworkError)]
         = maxRetries new_manager"
    by (simp_all add: new_manager_def unreachable_def health_result_def isOllamaRunning_def
        linux_http_def)
  have n: "calls new_manager = []" "ensures new_manager = []" "maxRetries new_manager = 3"
    by (simp_all add: new_manager_def)
  have p: "length (getOllamaPath (platform linux_http)) = 4"
    by (simp add: linux_http_def getOllamaPath_def)
  from all_probes_fail [OF h] have
    "run linux_http (CallStart # HealthDone (StartPre 0) NetworkError
          # probes_fail 0 (getOllamaPath (platform linux_http))) new_manager
        = Some (new_manager\<lparr>calls := [exhausted linux_http None]\<rparr>)"
    "run linux_http (CallEnsure # failing_run linux_http 0 1
          [(NetworkError, TimedOut), (Response 503, NetworkError), (TimedOut, NetworkError)])
          (new_manager\<lparr>calls := [exhausted linux_http None]\<rparr>)
        = Some (new_manager\<lparr>calls := exhausted linux_http None
                    # replicate 3 (exhausted linux_http (Some 0)),
                  ensures := [\<lparr>retries = 3,
                    eoutcome = Rejected ''Failed to start Ollama after 3 attempts''\<rparr>]\<rparr>)"
    unfolding n list.size append_Nil One_nat_def [symmetric] by (simp_all only: failure_message_3 simp_thms)
  with h(1,2,3) n(3) p show ?thesis by (simp only: simp_thms)
qed

subsection \<open>The error listener and the settle timer\<close>

text \<open>
  Claim C7. Two runs of one \<open>startOllama\<close> call on a new supervisor, in each of which the
  check after a settle timer finds the service reachable and fulfils the promise with
  \<open>true\<close>, and the call attempts another candidate after that. In the first run the
  timer of the second child fires next and its check times out: the callback kills the
  second child and asks for the probe of the third path, which succeeds and spawns a
  third child. In the second run the probe of the second path, asked for by the \<open>error\<close>
  listener, is answered after the promise is fulfilled: when it succeeds the call spawns
  the second candidate, when it fails the call asks for the probe of the third path.
\<close>

theorem error_listener_races_settle_timer:
  "map_option (\<lambda>s. (outcome (calls s ! 0), map cpath (children s), killed s, pending s))
     (run linux_http error_then_reachable new_manager)
     = Some (Fulfilled RTrue, [''/usr/local/bin/ollama'', ''/usr/bin/ollama''], [], {#Settle 0#})
   \<and> map_option (\<lambda>s. (outcome (calls s ! 0), map cpath (children s), killed s, ollamaProcess s))
     (run linux_http
        (error_then_reachable @
          [TimerFired 0, HealthDone (StartPost 0) TimedOut,
           ProbeDone 0 ''~/.local/bin/ollama'' True]) new_manager)
     = Some (Fulfilled RTrue,
         [''/usr/local/bin/ollama'', ''/usr/bin/ollama'', ''~/.local/bin/ollama''], [1], Some 2)
   \<and> map_option (\<lambda>s. (outcome (calls s ! 0), map cpath (children s), pending s))
     (run linux_http error_then_reachable_early new_manager)
     = Some (Fulfilled RTrue, [''/usr/local/bin/ollama''], {#Probe 0 ''/usr/bin/ollama''#})
   \<and> map_option (\<lambda>s. (outcome (calls s ! 0), map cpath (children s), ollamaProcess s))
     (run linux_http (error_then_reachable_early @ [ProbeDone 0 ''/usr/bin/ollama'' True])
        new_manager)
     = Some (Fulfilled RTrue, [''/usr/local/bin/ollama'', ''/usr/bin/ollama''], Some 1)
   \<and> map_option (\<lambda>s. (outcome (calls s ! 0), map cpath (children s), pending s))
     (run linux_http (error_then_reachable_early @ [ProbeDone 0 ''/usr/bin/ollama'' False])
        new_manager)
     = Some (Fulfilled RTrue, [''/usr/local/bin/ollama''], {#Probe 0 ''~/.local/bin/ollama''#})"
  by (simp add: error_then_reachable_def error_then_reachable_early_def linux_http_def
      new_manager_def machine_defs)

text \<open>
  Claim C1. Two runs of \<open>ensureOllamaRunning\<close> on a new supervisor in which no health
  check finds the service reachable. In both the promise is rejected after 3 turns, each
  \<open>startOllama\<close> call of which was rejected, with the message that names the 3 attempts,
  and in both the supervisor owns a handle at that moment. In the first run it is the
  handle of the child that emitted \<open>error\<close>: its listener went on to the next path, there
  was none, and the field was not cleared. In the second run it is the handle of a second
  child, alive, spawned by the chain of probes that the \<open>error\<close> listener started while
  the timer callback went through the other paths.
\<close>

theorem handle_owned_after_startup_failure:
  "map_option (\<lambda>s. (eoutcome (ensures s ! 0), retries (ensures s ! 0), map outcome (calls s),
        ollamaProcess s, map cpath (children s), killed s, pending s))
     (run linux_http error_on_last_path new_manager)
     = Some (Rejected ''Failed to start Ollama after 3 attempts'', 3,
         [Rejected not_found_message, Rejected not_found_message, Rejected not_found_message],
         Some 0, [''./ollama''], [], {#Settle 2#})
   \<and> map_option (\<lambda>s. (eoutcome (ensures s ! 0), retries (ensures s ! 0), map outcome (calls s),
        ollamaProcess s, map cpath (children s), map cexited (children s), killed s, pending s))
     (run linux_http error_then_exhausted new_manager)
     = Some (Rejected ''Failed to start Ollama after 3 attempts'', 3,
         [Rejected not_found_message, Rejected not_found_message, Rejected not_found_message],
         Some 1, [''/usr/local/bin/ollama'', ''/usr/bin/ollama''], [False, False], [0],
         {#Settle 2#})"
proof -
  have turns: "run linux_http two_failed_turns new_manager =
      Some (new_manager\<lparr>isStarting := True,
        calls := [exhausted linux_http (Some 0), exhausted linux_http (Some 0),
          \<lparr>paths = getOllamaPath ''linux'', pathIndex = 1, outcome = Pending, awaiter = Some 0\<rparr>],
        ensures := [\<lparr>retries = 2, eoutcome = Pending\<rparr>],
        pending := {#Probe 2 ''/usr/local/bin/ollama''#}\<rparr>)"
    by (simp add: two_failed_turns_def attempt_fails_def probes_fail_def exhausted_def
        linux_http_def new_manager_def machine_defs numeral_2_eq_2)
  show ?thesis
    unfolding error_on_last_path_def error_then_exhausted_def run_append turns option.case
    by (simp add: exhausted_def linux_http_def new_manager_def machine_defs show_nat.simps
        failure_message_def numeral_2_eq_2)
qed

subsection \<open>Runs in which no child emits an error\<close>

text \<open>
  What the two runs above have in common is the \<open>error\<close> event. Without it one
  \<open>ensureOllamaRunning\<close> call on a new supervisor that never finds the service reachable
  is, at every moment, either waiting for exactly one operation in flight or rejected with
  the message that names \<open>maxRetries\<close>, after \<open>maxRetries\<close> calls of \<open>startOllama\<close>, all
  rejected, and owning no handle.
\<close>

lemma lone_ensure_start: "lone_ensure (ensureOllamaRunning (new_manager\<lparr>maxRetries := n\<rparr>))"
  by (simp add: lone_ensure_def ensureOllamaRunning_def ensureLoop_def new_manager_def)

lemma tryNextPath_lone:
  assumes "length (ensures s) = 1" "list_all (\<lambda>k. awaiter k = Some 0) (calls s)"
    "eoutcome (ensures s ! 0) = Pending" "retries (ensures s ! 0) = r" "r < maxRetries s"
    "length (calls s) = Suc r" "list_all given_up (take r (calls s))"
    "outcome (calls s ! r) = Pending" "ollamaProcess s = None" "pending s = {#}"
  shows "lone_ensure (tryNextPath r s)"
proof (cases "pathIndex (calls s ! r) \<ge> length (paths (calls s ! r))")
  case False
  with assms show ?thesis
    by (auto simp: lone_ensure_def tryNextPath_def Let_def list_all_length nth_list_update)
next
  case True
  have aw: "awaiter (calls s ! r) = Some 0"
    using assms(2,6) by (simp add: list_all_length)
  have all: "list_all given_up ((calls s)[r := (calls s ! r)\<lparr>outcome := Rejected not_found_message\<rparr>])"
    using assms(6,7)
    by (auto simp: list_all_length given_up_def nth_list_update less_Suc_eq)
  have aws: "list_all (\<lambda>k. awaiter k = Some 0)
      ((calls s)[r := (calls s ! r)\<lparr>outcome := Rejected not_found_message\<rparr>])"
    using assms(2,6) by (auto simp: list_all_length nth_list_update)
  show ?thesis
    using True assms(1,3,4,5,6,8,9,10) aw all aws
    by (cases "ensures s") (auto simp: lone_ensure_def tryNextPath_def settle_def afterStart_def ensureLoop_def Let_def)
qed

lemma lone_ensure_at_start_pre:
  assumes "lone_ensure s" "Health (StartPre c) \<in># pending s"
  shows "retries (ensures s ! 0) = c \<and> length (ensures s) = 1
     \<and> list_all (\<lambda>k. awaiter k = Some 0) (calls s) \<and> eoutcome (ensures s ! 0) = Pending
     \<and> c < maxRetries s \<and> length (calls s) = Suc c \<and> list_all given_up (take c (calls s))
     \<and> outcome (calls s ! c) = Pending \<and> ollamaProcess s = None
     \<and> pending s = {#Health (StartPre c)#}"
  using assms by (auto simp: lone_ensure_def Let_def)

lemma lone_ensure_at_start_post:
  assumes "lone_ensure s" "Health (StartPost c) \<in># pending s"
  shows "retries (ensures s ! 0) = c \<and> length (ensures s) = 1
     \<and> list_all (\<lambda>k. awaiter k = Some 0) (calls s) \<and> eoutcome (ensures s ! 0) = Pending
     \<and> c < maxRetries s \<and> length (calls s) = Suc c \<and> list_all given_up (take c (calls s))
     \<and> outcome (calls s ! c) = Pending
     \<and> pending s = {#Health (StartPost c)#}"
  using assms by (auto simp: lone_ensure_def Let_def)

lemma lone_ensure_at_probe:
  assumes "lone_ensure s" "Probe c p \<in># pending s"
  shows "retries (ensures s ! 0) = c \<and> length (ensures s) = 1
     \<and> list_all (\<lambda>k. awaiter k = Some 0) (calls s) \<and> eoutcome (ensures s ! 0) = Pending
     \<and> c < maxRetries s \<and> length (calls s) = Suc c \<and> list_all given_up (take c (calls s))
     \<and> outcome (calls s ! c) = Pending \<and> ollamaProcess s = None
     \<and> pending s = {#Probe c p#}"
  using assms by (auto simp: lone_ensure_def Let_def)

lemma lone_ensure_at_ensure_pre:
  assumes "lone_ensure s" "Health (EnsurePre e) \<in># pending s"
  shows "e = 0 \<and> length (ensures s) = 1
     \<and> list_all (\<lambda>k. awaiter k = Some 0) (calls s) \<and> eoutcome (ensures s ! 0) = Pending
     \<and> retries (ensures s ! 0) < maxRetries s \<and> length (calls s) = retries (ensures s ! 0)
     \<and> list_all given_up (calls s) \<and> ollamaProcess s = None \<and> \<not> isStarting s
     \<and> pending s = {#Health (EnsurePre e)#}"
  using assms by (auto simp: lone_ensure_def Let_def)

lemma lone_ensure_no_ensure_post:
  assumes "lone_ensure s"
  shows "Health (EnsurePost e) \<notin># pending s"
  using assms by (auto simp: lone_ensure_def Let_def)


lemma lone_ensure_at_settle:
  assumes "lone_ensure s" "Settle c \<in># pending s"
  shows "retries (ensures s ! 0) = c \<and> length (ensures s) = 1
     \<and> list_all (\<lambda>k. awaiter k = Some 0) (calls s) \<and> eoutcome (ensures s ! 0) = Pending
     \<and> c < maxRetries s \<and> length (calls s) = Suc c \<and> list_all given_up (take c (calls s))
     \<and> outcome (calls s ! c) = Pending
     \<and> pending s = {#Settle c#}"
  using assms by (auto simp: lone_ensure_def Let_def)

lemma lone_ensure_at_delay:
  assumes "lone_ensure s" "Delay e b \<in># pending s"
  shows "e = 0 \<and> \<not> b \<and> length (ensures s) = 1
     \<and> list_all (\<lambda>k. awaiter k = Some 0) (calls s) \<and> eoutcome (ensures s ! 0) = Pending
     \<and> retries (ensures s ! 0) < maxRetries s \<and> length (calls s) = retries (ensures s ! 0)
     \<and> list_all given_up (calls s) \<and> ollamaProcess s = None \<and> \<not> isStarting s
     \<and> pending s = {#Delay e b#}"
  using assms by (auto simp: lone_ensure_def Let_def)

lemma lone_ensure_timer:
  assumes "lone_ensure s" "step rt (TimerFired c) s = Some s'"
  shows "lone_ensure s'"
proof -
  from assms(2) have on: "Settle c \<in># pending s"
    and s': "s' = settleTimer c (take_task (Settle c) s)"
    by (auto split: if_splits)
  note at = lone_ensure_at_settle [OF assms(1) on]
  then show ?thesis
    by (auto simp: s' settleTimer_def take_task_def lone_ensure_def Let_def)
qed

lemma lone_ensure_delay:
  assumes "lone_ensure s" "step rt (DelayDone e b) s = Some s'"
  shows "lone_ensure s'"
proof -
  from assms(2) have on: "Delay e b \<in># pending s"
    and s': "s' = delayDone e b (take_task (Delay e b) s)"
    by (auto split: if_splits)
  note at = lone_ensure_at_delay [OF assms(1) on]
  then show ?thesis
    by (simp add: s' delayDone_def ensureLoop_def take_task_def lone_ensure_def Let_def)
qed

lemma lone_ensure_exit:
  assumes "lone_ensure s" "step rt (ChildExit h) s = Some s'"
  shows "lone_ensure s'"
proof -
  from assms(2) have s': "s' = childExit h s"
    by (auto split: if_splits)
  from assms(1) show ?thesis
    unfolding s' childExit_def lone_ensure_def Let_def by auto
qed


lemma lone_ensure_probe:
  assumes "lone_ensure s" "step rt (ProbeDone c p ok) s = Some s'"
  shows "lone_ensure s'"
proof -
  from assms(2) have on: "Probe c p \<in># pending s"
    and s': "s' = probeDone c p ok (take_task (Probe c p) s)"
    by (auto split: if_splits)
  note at = lone_ensure_at_probe [OF assms(1) on]
  show ?thesis
  proof (cases ok)
    case True
    with at show ?thesis
      by (auto simp: s' probeDone_def take_task_def lone_ensure_def Let_def)
  next
    case False
    have "lone_ensure (tryNextPath c (take_task (Probe c p) s))"
      using at by (intro tryNextPath_lone) (simp_all add: take_task_def)
    with False show ?thesis
      by (simp add: s' probeDone_def)
  qed
qed

lemma lone_ensure_start_pre:
  assumes "lone_ensure s" "Health (StartPre c) \<in># pending s"
  shows "lone_ensure (startPre rt c False (take_task (Health (StartPre c)) s))"
proof -
  note at = lone_ensure_at_start_pre [OF assms]
  let ?s1 = "(take_task (Health (StartPre c)) s)
      \<lparr>isStarting := True,
        calls := (calls (take_task (Health (StartPre c)) s))
          [c := (calls (take_task (Health (StartPre c)) s) ! c)
          \<lparr>paths := getOllamaPath (platform rt), pathIndex := 0\<rparr>]\<rparr>"
  have "lone_ensure (tryNextPath c ?s1)"
  proof (rule tryNextPath_lone)
    show "list_all (\<lambda>k. awaiter k = Some 0) (calls ?s1)"
      using at by (auto simp: take_task_def list_all_length nth_list_update)
    show "list_all given_up (take c (calls ?s1))"
      using at by (simp add: take_task_def)
  qed (use at in \<open>simp_all add: take_task_def\<close>)
  then show ?thesis
    by (simp add: startPre_def)
qed


lemma lone_ensure_start_post:
  assumes "lone_ensure s" "Health (StartPost c) \<in># pending s"
  shows "lone_ensure (startPost c False (take_task (Health (StartPost c)) s))"
proof -
  note at = lone_ensure_at_start_post [OF assms]
  let ?s0 = "take_task (Health (StartPost c)) s"
  let ?s1 = "case ollamaProcess ?s0 of
      Some h \<Rightarrow> ?s0\<lparr>killed := killed ?s0 @ [h], ollamaProcess := None\<rparr> | None \<Rightarrow> ?s0"
  have "lone_ensure (tryNextPath c ?s1)"
    using at by (intro tryNextPath_lone) (simp_all add: take_task_def split: option.splits)
  then show ?thesis
    by (simp add: startPost_def)
qed

lemma lone_ensure_ensure_pre:
  assumes "lone_ensure s" "Health (EnsurePre e) \<in># pending s"
  shows "lone_ensure (ensurePre e False (take_task (Health (EnsurePre e)) s))"
proof -
  note at = lone_ensure_at_ensure_pre [OF assms]
  then show ?thesis
    by (auto simp: ensurePre_def startOllama_def take_task_def lone_ensure_def
        Let_def list_all_length nth_append)
qed

lemma lone_ensure_step:
  assumes "lone_ensure s" "quiet rt (defaultPort s) ev" "step rt ev s = Some s'"
  shows "lone_ensure s'"
proof (cases ev)
  case (HealthDone k out)
  with assms(2) have down: "\<not> health_result rt (defaultPort s) out" by simp
  from HealthDone assms(3) have on: "Health k \<in># pending s"
    and s': "s' = resume rt k False (take_task (Health k) s)"
    using down by (auto split: if_splits)
  show ?thesis
  proof (cases k)
    case (StartPre c)
    with on s' lone_ensure_start_pre [OF assms(1), of c rt] show ?thesis by simp
  next
    case (StartPost c)
    with on s' lone_ensure_start_post [OF assms(1), of c] show ?thesis by simp
  next
    case (EnsurePre e)
    with on s' lone_ensure_ensure_pre [OF assms(1), of e] show ?thesis by simp
  next
    case (EnsurePost e)
    with on lone_ensure_no_ensure_post [OF assms(1)] show ?thesis by simp
  qed
next
  case (ProbeDone c p ok)
  with assms(1,3) show ?thesis by (auto intro: lone_ensure_probe)
next
  case (TimerFired c)
  with assms(1,3) show ?thesis by (auto intro: lone_ensure_timer)
next
  case (DelayDone e b)
  with assms(1,3) show ?thesis by (auto intro: lone_ensure_delay)
next
  case (ChildExit h)
  with assms(1,3) show ?thesis by (auto intro: lone_ensure_exit)
qed (use assms(2) in simp_all)


lemma step_keeps_settings:
  assumes "step rt ev s = Some s'"
  shows "defaultPort s' = defaultPort s \<and> maxRetries s' = maxRetries s"
proof (cases ev)
  case (HealthDone k out)
  with assms show ?thesis
    by (cases k)
       (auto simp: take_task_def startPre_def startPost_def ensurePre_def ensurePost_def
          split: if_splits option.splits)
qed (use assms in \<open>auto simp: take_task_def stopOllama_def ensureOllamaRunning_def probeDone_def
       settleTimer_def delayDone_def childError_def childExit_def split: if_splits option.splits\<close>)

lemma lone_ensure_run:
  "lone_ensure s \<Longrightarrow> list_all (quiet rt (defaultPort s)) evs \<Longrightarrow> run rt evs s = Some s' \<Longrightarrow>
   lone_ensure s' \<and> maxRetries s' = maxRetries s"
proof (induction evs arbitrary: s)
  case Nil
  then show ?case by simp
next
  case (Cons ev evs)
  from Cons.prems(3) obtain s1 where s1: "step rt ev s = Some s1" and rest: "run rt evs s1 = Some s'"
    by (auto split: option.splits)
  note keep = step_keeps_settings [OF s1]
  have "lone_ensure s1"
    using Cons.prems(1,2) s1 by (auto intro: lone_ensure_step)
  moreover have "list_all (quiet rt (defaultPort s1)) evs"
    using Cons.prems(2) keep by simp
  ultimately have "lone_ensure s' \<and> maxRetries s' = maxRetries s1"
    using rest by (intro Cons.IH)
  with keep show ?case by simp
qed

lemma unreachable_ensure_gives_up:
  assumes "list_all (quiet rt (defaultPort new_manager)) evs"
    and "run rt (CallEnsure # evs) (new_manager\<lparr>maxRetries := n\<rparr>) = Some s"
  shows "(eoutcome (ensures s ! 0) = Pending \<and> pending s \<noteq> {#})
     \<or> (eoutcome (ensures s ! 0) = Rejected (failure_message n) \<and> retries (ensures s ! 0) = n
         \<and> length (calls s) = n \<and> list_all given_up (calls s) \<and> ollamaProcess s = None
         \<and> pending s = {#})"
proof -
  let ?s0 = "ensureOllamaRunning (new_manager\<lparr>maxRetries := n\<rparr>)"
  have port: "defaultPort ?s0 = defaultPort new_manager" and tries: "maxRetries ?s0 = n"
    by (simp_all add: ensureOllamaRunning_def)
  from assms(2) have "run rt evs ?s0 = Some s" by simp
  with lone_ensure_run [OF lone_ensure_start, of rt n evs s] assms(1) port tries
  have "lone_ensure s" "maxRetries s = n" by simp_all
  then show ?thesis
    by (auto simp: lone_ensure_def Let_def)
qed

text \<open>
  Likewise one \<open>startOllama\<close> call on a new supervisor: once its promise is settled, in
  particular once a check after a settle timer has fulfilled it, no operation is in
  flight, and nothing that follows changes the path index of the call or spawns a process.
\<close>

lemma lone_start_new: "lone_start (startOllama None new_manager)"
  by (simp add: lone_start_def startOllama_def new_manager_def)

lemma tryNextPath_lone_start:
  assumes "length (calls s) = 1" "awaiter (calls s ! 0) = None" "outcome (calls s ! 0) = Pending"
    "pending s = {#}"
  shows "lone_start (tryNextPath 0 s)"
  using assms by (auto simp: lone_start_def tryNextPath_def settle_def)

lemma lone_start_step:
  assumes "lone_start s" "calm ev" "step rt ev s = Some s'"
  shows "lone_start s'"
proof (cases ev)
  case (HealthDone k out)
  from HealthDone assms(3) have on: "Health k \<in># pending s"
    and s': "s' = resume rt k (health_result rt (defaultPort s) out) (take_task (Health k) s)"
    by (auto split: if_splits)
  from assms(1) on have k: "k = StartPre 0 \<or> k = StartPost 0"
    and rest: "pending s = {#Health k#}" "length (calls s) = 1" "awaiter (calls s ! 0) = None"
      "outcome (calls s ! 0) = Pending"
    by (auto simp: lone_start_def)
  show ?thesis
  proof (cases "health_result rt (defaultPort s) out")
    case True
    with k rest show ?thesis
      by (auto simp: s' startPre_def startPost_def settle_def take_task_def lone_start_def)
  next
    case False
    from k show ?thesis
    proof
      assume "k = StartPre 0"
      moreover have "lone_start (tryNextPath 0 ((take_task (Health (StartPre 0)) s)
          \<lparr>isStarting := True,
            calls := (calls (take_task (Health (StartPre 0)) s))
              [0 := (calls (take_task (Health (StartPre 0)) s) ! 0)
                \<lparr>paths := getOllamaPath (platform rt), pathIndex := 0\<rparr>]\<rparr>))"
        using rest \<open>k = StartPre 0\<close>
        by (intro tryNextPath_lone_start) (simp_all add: take_task_def)
      ultimately show ?thesis
        using False by (simp add: s' startPre_def)
    next
      assume "k = StartPost 0"
      moreover have "lone_start (tryNextPath 0
          (case ollamaProcess (take_task (Health (StartPost 0)) s) of
             Some h \<Rightarrow> (take_task (Health (StartPost 0)) s)
               \<lparr>killed := killed (take_task (Health (StartPost 0)) s) @ [h], ollamaProcess := None\<rparr>
           | None \<Rightarrow> take_task (Health (StartPost 0)) s))"
        using rest \<open>k = StartPost 0\<close>
        by (intro tryNextPath_lone_start) (simp_all add: take_task_def split: option.splits)
      ultimately show ?thesis
        using False by (simp add: s' startPost_def)
    qed
  qed
next
  case (ProbeDone c p ok)
  from ProbeDone assms(3) have on: "Probe c p \<in># pending s"
    and s': "s' = probeDone c p ok (take_task (Probe c p) s)"
    by (auto split: if_splits)
  from assms(1) on have rest: "c = 0" "pending s = {#Probe c p#}" "length (calls s) = 1"
      "awaiter (calls s ! 0) = None" "outcome (calls s ! 0) = Pending"
    by (auto simp: lone_start_def)
  show ?thesis
  proof (cases ok)
    case True
    with rest show ?thesis
      by (simp add: s' probeDone_def take_task_def lone_start_def)
  next
    case False
    have "lone_start (tryNextPath 0 (take_task (Probe c p) s))"
      using rest by (intro tryNextPath_lone_start) (simp_all add: take_task_def)
    with False rest(1) show ?thesis
      by (simp add: s' probeDone_def)
  qed
next
  case (TimerFired c)
  from TimerFired assms(3) have on: "Settle c \<in># pending s"
    and s': "s' = settleTimer c (take_task (Settle c) s)"
    by (auto split: if_splits)
  from assms(1) on have "c = 0" "pending s = {#Settle c#}" "length (calls s) = 1"
      "awaiter (calls s ! 0) = None" "outcome (calls s ! 0) = Pending"
    by (auto simp: lone_start_def)
  then show ?thesis
    by (simp add: s' settleTimer_def take_task_def lone_start_def)
next
  case (DelayDone e b)
  with assms(1,3) show ?thesis
    by (auto simp: lone_start_def split: if_splits)
next
  case (ChildExit h)
  with assms(1,3) show ?thesis
    by (auto simp: lone_start_def childExit_def split: if_splits)
qed (use assms(2) in simp_all)

lemma lone_start_settled_step:
  assumes "lone_start s" "outcome (calls s ! 0) \<noteq> Pending" "calm ev" "step rt ev s = Some s'"
  shows "calls s' = calls s \<and> length (children s') = length (children s) \<and> pending s' = {#}"
proof -
  from assms(1,2) have idle: "pending s = {#}"
    by (auto simp: lone_start_def)
  show ?thesis
    using assms(3,4) idle by (cases ev) (auto simp: childExit_def split: if_splits)
qed

lemma lone_start_run:
  "lone_start s \<Longrightarrow> list_all calm evs \<Longrightarrow> run rt evs s = Some s' \<Longrightarrow> lone_start s'"
proof (induction evs arbitrary: s)
  case Nil
  then show ?case by simp
next
  case (Cons ev evs)
  then show ?case
    by (auto split: option.splits intro: lone_start_step)
qed

lemma lone_start_settled_run:
  "lone_start s \<Longrightarrow> outcome (calls s ! 0) \<noteq> Pending \<Longrightarrow> list_all calm evs \<Longrightarrow>
   run rt evs s = Some s' \<Longrightarrow>
   calls s' = calls s \<and> length (children s') = length (children s) \<and> pending s' = {#}"
proof (induction evs arbitrary: s)
  case Nil
  then show ?case by (auto simp: lone_start_def)
next
  case (Cons ev evs)
  from Cons.prems(4) obtain s1 where s1: "step rt ev s = Some s1" and rest: "run rt evs s1 = Some s'"
    by (auto split: option.splits)
  from Cons.prems(3) have calm: "calm ev" "list_all calm evs" by simp_all
  note same = lone_start_settled_step [OF Cons.prems(1,2) calm(1) s1]
  have "lone_start s1"
    using Cons.prems(1) calm(1) s1 by (rule lone_start_step)
  moreover have "outcome (calls s1 ! 0) \<noteq> Pending"
    using same Cons.prems(2) by simp
  ultimately have "calls s' = calls s1 \<and> length (children s') = length (children s1) \<and> pending s' = {#}"
    using calm(2) rest by (intro Cons.IH)
  with same show ?case by simp
qed

lemma settled_start_attempts_nothing:
  assumes "list_all calm evs" "run rt (CallStart # evs) new_manager = Some s"
    and "outcome (calls s ! 0) \<noteq> Pending"
    and "list_all calm evs'" "run rt evs' s = Some s'"
  shows "calls s' = calls s \<and> length (children s') = length (children s) \<and> pending s' = {#}"
proof -
  from assms(2) have "run rt evs (startOllama None new_manager) = Some s" by simp
  with lone_start_new assms(1) have "lone_start s" by (rule lone_start_run)
  then show ?thesis
    using assms(3,4,5) by (rule lone_start_settled_run)
qed

subsection \<open>ensureModel\<close>

text \<open>
  Claim C4. When the listing has no \<open>models\<close> field or an empty one, \<open>ensureModel\<close> spawns
  the \<open>pull\<close> subcommand for the given name from the first candidate path, and nothing
  else; its promise is fulfilled with \<open>true\<close> exactly when the subcommand exits with code
  0, and is rejected when it exits with another code. When the listing holds at least
  one model the promise is fulfilled with \<open>true\<close> and nothing is spawned. When the request
  fails, when its body is not JSON, or when there is no \<open>fetch\<close> to make it with, the
  promise is fulfilled with \<open>false\<close> and nothing is spawned.
\<close>

theorem ensureModel_spec:
  "(hasFetch rt \<and> (map_of (rev kvs) ''models'' = None \<or> map_of (rev kvs) ''models'' = Some (JArr []))
      \<longrightarrow> snd (ensureModel rt (Body (Some (JObj kvs))) pull (Some name))
            = [(hd (getOllamaPath (platform rt)), [''pull'', name])]
        \<and> (fst (ensureModel rt (Body (Some (JObj kvs))) pull (Some name)) = Fulfilled True
             \<longleftrightarrow> pull = PullExit (Some 0))
        \<and> (\<forall>code. pull = PullExit code \<and> code \<noteq> Some 0 \<longrightarrow>
             fst (ensureModel rt (Body (Some (JObj kvs))) pull (Some name))
               = Rejected (''Failed to pull '' @ name)))
   \<and> (hasFetch rt \<and> map_of (rev kvs) ''models'' = Some (JArr (m # ms))
      \<longrightarrow> ensureModel rt (Body (Some (JObj kvs))) pull (Some name) = (Fulfilled True, []))
   \<and> ensureModel rt (QueryFailed msg) pull arg = (Fulfilled False, [])
   \<and> ensureModel rt (Body None) pull arg = (Fulfilled False, [])
   \<and> (\<not> hasFetch rt \<longrightarrow> ensureModel rt lst pull arg = (Fulfilled False, []))"
  by (auto simp: ensureModel_def no_models_def get_prop_def truthy_def getOllamaPath_def Let_def
      split: pull_outcome.splits)

theorem ensureModel_spec_witness:
  "hasFetch linux_fetch
   \<and> ensureModel linux_fetch (Body (Some no_models_body)) (PullExit (Some 0)) (Some ''llama2'')
       = (Fulfilled True, [(''/usr/local/bin/ollama'', [''pull'', ''llama2''])])
   \<and> ensureModel linux_fetch (Body (Some no_models_body)) (PullExit (Some 1)) (Some ''llama2'')
       = (Rejected ''Failed to pull llama2'', [(''/usr/local/bin/ollama'', [''pull'', ''llama2''])])
   \<and> ensureModel linux_fetch (Body (Some llama2_body)) (PullExit (Some 1)) (Some ''llama2'')
       = (Fulfilled True, [])
   \<and> ensureModel linux_fetch (QueryFailed ''fetch failed'') (PullExit (Some 0)) (Some ''llama2'')
       = (Fulfilled False, [])
   \<and> \<not> hasFetch linux_http
   \<and> ensureModel linux_http (Body (Some no_models_body)) (PullExit (Some 0)) (Some ''llama2'')
       = (Fulfilled False, [])"
  using ensureModel_spec [where rt = linux_http and lst = "Body (Some no_models_body)"
      and pull = "PullExit (Some 0)" and arg = "Some ''llama2''"]
    ensureModel_spec [of linux_fetch "[(''models'', JArr [])]" "PullExit (Some 0)" "''llama2''"]
    ensureModel_spec [of linux_fetch "[(''models'', JArr [])]" "PullExit (Some 1)" "''llama2''"]
    ensureModel_spec [where rt = linux_fetch
      and kvs = "[(''models'', JArr [JObj [(''name'', JStr ''llama2'')]])]"
      and m = "JObj [(''name'', JStr ''llama2'')]" and ms = "[]" and pull = "PullExit (Some 1)"
      and name = "''llama2''" and msg = "''fetch failed''" and arg = "Some ''llama2''"]
  by (simp add: linux_fetch_def linux_http_def no_models_body_def llama2_body_def
      getOllamaPath_def prod_eq_iff)

subsection \<open>ensureOllamaReady\<close>

text \<open>
  Claim C10. When the setting \<open>useOllama\<close> is false, \<open>ensureOllamaReady\<close> returns \<open>true\<close>
  and leaves the extension as it was: no call of the supervisor and no message is
  recorded, whatever the script holds.
\<close>

theorem ensureOllamaReady_api_mode:
  "useOllama x = Some False \<Longrightarrow> ensureOllamaReady script x = (Some True, x)"
  by (cases script) (simp_all add: getUseOllama_def)

theorem ensureOllamaReady_api_mode_witness:
  "useOllama api_mode = Some False
   \<and> ensureOllamaReady [gives_up, gives_up] api_mode = (Some True, api_mode)
   \<and> effects (snd (ensureOllamaReady [gives_up, gives_up] api_mode)) = []"
  using ensureOllamaReady_api_mode [of api_mode "[gives_up, gives_up]"]
  by (simp add: api_mode_def)

end
